theory Spec2Isabelle
  imports Main
begin

section \<open>The expression-to-script translator of package function\<close>

text \<open>
  The translator walks an AST of package \<^verbatim>\<open>ast\<close> and writes a script into a
  \<^verbatim>\<open>strings.Builder\<close>. The AST types, \<^verbatim>\<open>cmp.Comparison\<close>, \<^verbatim>\<open>misc.Escape\<close> and the
  script engine live in other packages. Their shapes are read off the type switches and
  accessor calls of the translator:
  \<^item> an interface value is a datatype with one constructor for every dynamic type the
    translator tests for and one \<open>Other\<close> constructor, carrying the \<^verbatim>\<open>%T\<close> name, for
    every remaining dynamic type;
  \<^item> the text a foreign method writes (\<^verbatim>\<open>String()\<close> of a constant,
    \<^verbatim>\<open>Restore\<close> of a constant argument, \<^verbatim>\<open>WriteTo\<close> of a comparison operator) and the
    number \<^verbatim>\<open>Duration().Nanoseconds()\<close> of an interval are carried by the node;
  \<^item> \<^verbatim>\<open>misc.Escape(_, misc.EscapeSingleQuote)\<close> is a parameter \<open>esc\<close> of every
    translating function;
  \<^item> \<^verbatim>\<open>int64\<close> values are only compared with zero and printed, never computed with, so
    they are modelled as \<open>int\<close>.
\<close>

subsection \<open>Errors and results\<close>

text \<open>
  Go compares error values of pointer type by identity. \<^verbatim>\<open>ErrCannotEvalWithColumnName\<close>
  is one package-level value; \<^verbatim>\<open>errors.New\<close> and \<^verbatim>\<open>errors.Errorf\<close> allocate a fresh value
  holding a message; \<^verbatim>\<open>errors.WithStack\<close> allocates a fresh value wrapping its argument.
\<close>

datatype error =
    ErrCannotEvalWithColumnName
  | Errorf string
  | WithStack error

text \<open>
  A translating function returns \<^verbatim>\<open>nil\<close> after writing to the builder (\<open>Ok\<close> with the
  builder's new contents), returns an error (\<open>Err\<close>: every caller returns at once and
  the builder is never read again), or panics (\<open>Panic\<close>).
\<close>

datatype result = Ok string | Err error | Panic string

definition IsEvalWithColumnErr :: "error \<Rightarrow> bool" where
  "IsEvalWithColumnErr err = (err = ErrCannotEvalWithColumnName)"

subsection \<open>The AST as the translator sees it\<close>

datatype Comparison = Ceq | Cne | Cother string

datatype CastType =
    CastToUnsigned | CastToUnsignedInteger | CastToSigned | CastToSignedInteger
  | CastToBinary | CastToNChar | CastToChar | CastToDate | CastToDateTime | CastToTime
  | CastToJson | CastToDecimal
  | CastToOther

record ConvertDataType =
  Type :: CastType
  Dimensions :: "int \<times> int"
  Charset :: "string option"

datatype ExpressionAtom =
    IntervalExpressionAtom PredicateNode int
  | MathAtom MathExpressionAtom
  | ConstantExpressionAtom string
  | UnaryExpressionAtom string Node
  | ColumnNameExpressionAtom
  | NestedExpressionAtom ExpressionNode
  | VariableExpressionAtom int
  | FunctionCallExpressionAtom FunctionCall
  | OtherExpressionAtom string
and MathExpressionAtom =
    MathExpressionAtom ExpressionAtom string ExpressionAtom
and Node =
    NodeExpressionAtom ExpressionAtom
  | NodePredicate PredicateNode
  | NodeOther string
and PredicateNode =
    AtomPredicateNode ExpressionAtom
  | BinaryComparisonPredicateNode PredicateNode Comparison PredicateNode
  | OtherPredicateNode string
and ExpressionNode =
    PredicateExpressionNode PredicateNode
  | OtherExpressionNode string
and FunctionCall =
    CallFunction Function
  | CallAggrFunction
  | CallCastFunction CastFunction
  | CallCaseWhenElseFunction CaseWhenElseFunction
  | CallOther string
and Function =
    Function string "FunctionArg list"
and CastFunction =
    CastFunction "ConvertDataType option" "string option" ExpressionNode
and CaseWhenElseFunction =
    CaseWhenElseFunction "ExpressionNode option" "(FunctionArg \<times> FunctionArg) list"
      "FunctionArg option"
and FunctionArg =
    FunctionArgColumn
  | FunctionArgConstant string
  | FunctionArgExpression ExpressionNode
  | FunctionArgFunction Function
  | FunctionArgCastFunction CastFunction
  | FunctionArgCaseWhenElseFunction CaseWhenElseFunction
  | FunctionArgOther

text \<open>The name \<^verbatim>\<open>%T\<close> prints for a predicate node.\<close>

fun typeName_PredicateNode :: "PredicateNode \<Rightarrow> string" where
  "typeName_PredicateNode (AtomPredicateNode a) = ''*ast.AtomPredicateNode''"
| "typeName_PredicateNode (BinaryComparisonPredicateNode l op r) =
     ''*ast.BinaryComparisonPredicateNode''"
| "typeName_PredicateNode (OtherPredicateNode t) = t"

subsection \<open>Helpers\<close>

abbreviation (input) SQ :: char where
  "SQ \<equiv> CHR 0x27"

definition prefixMySQLFunc :: string where
  "prefixMySQLFunc = ''$''"

text \<open>Modelled from the spec: the constant \<^verbatim>\<open>FuncUnary\<close> is declared in a file that is
  not part of the sources; the spec renders a unary operation as \<^verbatim>\<open>$UNARY('<operator>', <operand>)\<close>.\<close>

definition FuncUnary :: string where
  "FuncUnary = ''$UNARY''"

definition TranslateFunction :: "string \<Rightarrow> string" where
  "TranslateFunction name = prefixMySQLFunc @ name"

definition writeFuncName :: "string \<Rightarrow> string \<Rightarrow> string" where
  "writeFuncName sb name = (sb @ prefixMySQLFunc) @ name"

text \<open>\<^verbatim>\<open>strconv.FormatInt(i, 10)\<close>, which is also what \<^verbatim>\<open>%d\<close> prints for an \<^verbatim>\<open>int64\<close>.\<close>

function FormatUint :: "nat \<Rightarrow> string" where
  "FormatUint n =
     (if n < 10 then [''0123456789'' ! n]
      else FormatUint (n div 10) @ [''0123456789'' ! (n mod 10)])"
  by pat_completeness auto
termination
  by (relation "measure id") auto

declare FormatUint.simps [simp del]

definition FormatInt :: "int \<Rightarrow> string" where
  "FormatInt i = (if i < 0 then CHR ''-'' # FormatUint (nat (- i)) else FormatUint (nat i))"

definition writeVariable :: "string \<Rightarrow> int \<Rightarrow> string" where
  "writeVariable sb n = ((sb @ ''arguments['') @ FormatInt n) @ '']''"

text \<open>
  The first half of \<^verbatim>\<open>castFunction2script\<close>: the chain
  \<^verbatim>\<open>if cast, ok := node.GetCast(); ok {switch} else if charset, ok := node.GetCharset(); ok {} else {panic}\<close>.
  The switch on the cast type has no default case.
\<close>

definition writeDimension :: "string \<Rightarrow> int \<Rightarrow> string" where
  "writeDimension sb d = (if d > 0 then sb @ FormatInt d else sb @ ''0'')"

definition castHead :: "(string \<Rightarrow> string) \<Rightarrow> string \<Rightarrow> ConvertDataType option \<Rightarrow> string option \<Rightarrow> result" where
  "castHead esc sb cast charset =
     (case cast of
        Some c \<Rightarrow>
          (case Type c of
             CastToUnsigned \<Rightarrow> Ok (writeFuncName sb ''CAST_UNSIGNED'' @ ''('')
           | CastToUnsignedInteger \<Rightarrow> Ok (writeFuncName sb ''CAST_UNSIGNED'' @ ''('')
           | CastToSigned \<Rightarrow> Ok (writeFuncName sb ''CAST_SIGNED'' @ ''('')
           | CastToSignedInteger \<Rightarrow> Ok (writeFuncName sb ''CAST_SIGNED'' @ ''('')
           | CastToBinary \<Rightarrow> Err (Errorf ''cast to binary is not supported yet'')
           | CastToNChar \<Rightarrow>
               Ok (writeDimension (writeFuncName sb ''CAST_NCHAR'' @ ''('') (fst (Dimensions c))
                   @ '', '')
           | CastToChar \<Rightarrow>
               Ok (((writeDimension (writeFuncName sb ''CAST_CHAR'' @ ''('') (fst (Dimensions c))
                     @ '', '')
                    @ (case Charset c of
                         Some cs \<Rightarrow> [SQ] @ esc cs @ [SQ]
                       | None \<Rightarrow> [SQ, SQ]))
                   @ '', '')
           | CastToDate \<Rightarrow> Ok (writeFuncName sb ''CAST_DATE'' @ ''('')
           | CastToDateTime \<Rightarrow> Ok (writeFuncName sb ''CAST_DATETIME'' @ ''('')
           | CastToTime \<Rightarrow> Ok (writeFuncName sb ''CAST_TIME'' @ ''('')
           | CastToJson \<Rightarrow> Err (Errorf ''cast to json is not supported yet'')
           | CastToDecimal \<Rightarrow>
               Ok (writeDimension
                     (writeDimension (writeFuncName sb ''CAST_DECIMAL'' @ ''('')
                        (fst (Dimensions c)) @ '', '')
                     (snd (Dimensions c))
                   @ '', '')
           | CastToOther \<Rightarrow> Ok sb)
      | None \<Rightarrow>
          (case charset of
             Some cs \<Rightarrow> Ok ((writeFuncName sb ''CAST_CHARSET('' @ [SQ] @ esc cs @ [SQ]) @ '', '')
           | None \<Rightarrow> Panic ''unreachable''))"

subsection \<open>The translator\<close>

text \<open>
  One function per source function, in the source's order of cases. The two
  \<^verbatim>\<open>range\<close> loops are the recursive functions \<open>function2script_args\<close> and
  \<open>caseWhen_branches\<close>, which carry the loop index; \<open>caseWhen_header\<close> is the block
  of \<^verbatim>\<open>caseWhenFunction2script\<close> that translates the CASE subject into its own builder
  and yields \<^verbatim>\<open>caseScript\<close> (empty when there is no subject). A type assertion without the
  \<^verbatim>\<open>ok\<close> result panics when the dynamic type differs.
\<close>

function (sequential) exprAtom2script :: "(string \<Rightarrow> string) \<Rightarrow> string \<Rightarrow> ExpressionAtom \<Rightarrow> result"
and math2script :: "(string \<Rightarrow> string) \<Rightarrow> string \<Rightarrow> MathExpressionAtom \<Rightarrow> result"
and castFunction2script :: "(string \<Rightarrow> string) \<Rightarrow> string \<Rightarrow> CastFunction \<Rightarrow> result"
and function2script :: "(string \<Rightarrow> string) \<Rightarrow> string \<Rightarrow> Function \<Rightarrow> result"
and function2script_args :: "(string \<Rightarrow> string) \<Rightarrow> string \<Rightarrow> nat \<Rightarrow> FunctionArg list \<Rightarrow> result"
and handleCompareAtom :: "(string \<Rightarrow> string) \<Rightarrow> string \<Rightarrow> PredicateNode \<Rightarrow> result"
and handleArg :: "(string \<Rightarrow> string) \<Rightarrow> string \<Rightarrow> FunctionArg \<Rightarrow> result"
and caseWhenFunction2script :: "(string \<Rightarrow> string) \<Rightarrow> string \<Rightarrow> CaseWhenElseFunction \<Rightarrow> result"
and caseWhen_header :: "(string \<Rightarrow> string) \<Rightarrow> ExpressionNode option \<Rightarrow> result"
and caseWhen_branches ::
  "(string \<Rightarrow> string) \<Rightarrow> string \<Rightarrow> string \<Rightarrow> nat \<Rightarrow> (FunctionArg \<times> FunctionArg) list \<Rightarrow> result"
where
  "exprAtom2script esc sb (IntervalExpressionAtom v d) =
     (case v of
        AtomPredicateNode a \<Rightarrow>
          (case exprAtom2script esc sb a of
             Ok sb1 \<Rightarrow> Ok ((sb1 @ '' * '') @ FormatInt d)
           | Err e \<Rightarrow> Err (WithStack e)
           | Panic m \<Rightarrow> Panic m)
      | _ \<Rightarrow>
          Err (Errorf (''invalid expr '' @ typeName_PredicateNode v
                       @ '' for interval expression'')))"
| "exprAtom2script esc sb (MathAtom v) = math2script esc sb v"
| "exprAtom2script esc sb (ConstantExpressionAtom text) = Ok (sb @ text)"
| "exprAtom2script esc sb (UnaryExpressionAtom operator inner) =
     (case inner of
        NodeExpressionAtom it \<Rightarrow>
          (case exprAtom2script esc ((((sb @ FuncUnary) @ [CHR ''('', SQ]) @ operator) @ [SQ, CHR '','', CHR '' '']) it of
             Ok sb1 \<Rightarrow> Ok (sb1 @ '')'')
           | r \<Rightarrow> r)
      | NodePredicate (BinaryComparisonPredicateNode l op r) \<Rightarrow>
          (case handleCompareAtom esc ((((sb @ FuncUnary) @ [CHR ''('', SQ]) @ operator) @ [SQ, CHR '','', CHR '' '']) l of
             Ok sb1 \<Rightarrow>
               (case handleCompareAtom esc
                       (((sb1 @ '' '')
                         @ (case op of Ceq \<Rightarrow> ''=='' | Cne \<Rightarrow> ''!='' | Cother text \<Rightarrow> text))
                        @ '' '') r of
                  Ok sb2 \<Rightarrow> Ok (sb2 @ '')'')
                | r \<Rightarrow> r)
           | r \<Rightarrow> r)
      | _ \<Rightarrow> Panic ''unreachable'')"
| "exprAtom2script esc sb ColumnNameExpressionAtom = Err ErrCannotEvalWithColumnName"
| "exprAtom2script esc sb (NestedExpressionAtom first) =
     (case first of
        PredicateExpressionNode (AtomPredicateNode next) \<Rightarrow>
          (case exprAtom2script esc (sb @ ''('') next of
             Ok sb1 \<Rightarrow> Ok (sb1 @ '')'')
           | r \<Rightarrow> r)
      | _ \<Rightarrow> Panic ''interface conversion'')"
| "exprAtom2script esc sb (VariableExpressionAtom n) = Ok (writeVariable sb n)"
| "exprAtom2script esc sb (FunctionCallExpressionAtom f) =
     (case f of
        CallFunction fn \<Rightarrow> function2script esc sb fn
      | CallAggrFunction \<Rightarrow> Err (Errorf ''aggr function should not appear here'')
      | CallCastFunction fn \<Rightarrow> castFunction2script esc sb fn
      | CallCaseWhenElseFunction fn \<Rightarrow> caseWhenFunction2script esc sb fn
      | CallOther t \<Rightarrow>
          Err (Errorf (''expression atom within function call '' @ t
                       @ '' is not supported yet'')))"
| "exprAtom2script esc sb (OtherExpressionAtom t) =
     Err (Errorf (''expression atom within '' @ t @ '' is not supported yet''))"
| "math2script esc sb (MathExpressionAtom left operator right) =
     (case exprAtom2script esc sb left of
        Ok sb1 \<Rightarrow> exprAtom2script esc (((sb1 @ '' '') @ operator) @ '' '') right
      | r \<Rightarrow> r)"
| "castFunction2script esc sb (CastFunction cast charset src) =
     (case castHead esc sb cast charset of
        Ok sb1 \<Rightarrow>
          (case src of
             PredicateExpressionNode (AtomPredicateNode next) \<Rightarrow>
               (case exprAtom2script esc sb1 next of
                  Ok sb2 \<Rightarrow> Ok (sb2 @ '')'')
                | r \<Rightarrow> r)
           | _ \<Rightarrow> Panic ''interface conversion'')
      | r \<Rightarrow> r)"
| "function2script esc sb (Function name args) =
     (case function2script_args esc (writeFuncName sb name @ ''('') 0 args of
        Ok sb1 \<Rightarrow> Ok (sb1 @ '')'')
      | r \<Rightarrow> r)"
| "function2script_args esc sb i [] = Ok sb"
| "function2script_args esc sb i (arg # rest) =
     (case handleArg esc (if i > 0 then (sb @ '','') @ '' '' else sb) arg of
        Ok sb1 \<Rightarrow> function2script_args esc sb1 (Suc i) rest
      | r \<Rightarrow> r)"
| "handleCompareAtom esc sb (AtomPredicateNode a) = exprAtom2script esc sb a"
| "handleCompareAtom esc sb (BinaryComparisonPredicateNode l op r) =
     Err (Errorf (''unsupported compare atom node *ast.BinaryComparisonPredicateNode''
                  @ '' in case-when function''))"
| "handleCompareAtom esc sb (OtherPredicateNode t) =
     Err (Errorf (''unsupported compare atom node '' @ t @ '' in case-when function''))"
| "handleArg esc sb FunctionArgColumn = Err ErrCannotEvalWithColumnName"
| "handleArg esc sb (FunctionArgConstant text) = Ok (sb @ text)"
| "handleArg esc sb (FunctionArgExpression v) =
     (case v of
        PredicateExpressionNode pn \<Rightarrow>
          (case pn of
             AtomPredicateNode next \<Rightarrow> exprAtom2script esc sb next
           | BinaryComparisonPredicateNode l op r \<Rightarrow>
               (case handleCompareAtom esc sb l of
                  Ok sb1 \<Rightarrow>
                    handleCompareAtom esc
                      (((sb1 @ '' '')
                        @ (case op of Ceq \<Rightarrow> ''=='' | Cne \<Rightarrow> ''!='' | Cother text \<Rightarrow> text))
                       @ '' '') r
                | r \<Rightarrow> r)
           | OtherPredicateNode t \<Rightarrow> Err (Errorf (''unsupported '' @ t)))
      | OtherExpressionNode t \<Rightarrow> Panic ''interface conversion'')"
| "handleArg esc sb (FunctionArgFunction f) = function2script esc sb f"
| "handleArg esc sb (FunctionArgCastFunction f) = castFunction2script esc sb f"
| "handleArg esc sb (FunctionArgCaseWhenElseFunction f) = caseWhenFunction2script esc sb f"
| "handleArg esc sb FunctionArgOther = Ok sb"
| "caseWhenFunction2script esc sb (CaseWhenElseFunction c branches els) =
     (case caseWhen_header esc c of
        Ok caseScript \<Rightarrow>
          (case caseWhen_branches esc sb caseScript 0 branches of
             Ok sb1 \<Rightarrow>
               (case els of
                  Some e \<Rightarrow>
                    (case handleArg esc (sb1 @ '', '') e of
                       Ok sb2 \<Rightarrow> Ok (sb2 @ replicate (length branches) (CHR '')''))
                     | r \<Rightarrow> r)
                | None \<Rightarrow>
                    Ok (((sb1 @ '', '') @ ''null'') @ replicate (length branches) (CHR '')'')))
           | r \<Rightarrow> r)
      | r \<Rightarrow> r)"
| "caseWhen_header esc None = Ok []"
| "caseWhen_header esc (Some v) =
     (case v of
        PredicateExpressionNode p \<Rightarrow>
          (case p of
             AtomPredicateNode a \<Rightarrow> exprAtom2script esc [] a
           | _ \<Rightarrow>
               Err (Errorf (''invalid expression type *ast.PredicateExpressionNode''
                            @ '' as the CASE body'')))
      | OtherExpressionNode t \<Rightarrow>
          Err (Errorf (''invalid expression type '' @ t @ '' as the CASE body'')))"
| "caseWhen_branches esc sb caseScript i [] = Ok sb"
| "caseWhen_branches esc sb caseScript i ((whn, thn) # rest) =
     (case handleArg esc (writeFuncName (if i > 0 then sb @ '', '' else sb) ''IF'' @ ''('') whn of
        Ok sb1 \<Rightarrow>
          (case handleArg esc
                  ((if length caseScript > 0 then ((sb1 @ '' == ('') @ caseScript) @ '')'' else sb1)
                   @ '', '') thn of
             Ok sb2 \<Rightarrow> caseWhen_branches esc sb2 caseScript (Suc i) rest
           | r \<Rightarrow> r)
      | r \<Rightarrow> r)"

  by pat_completeness auto

termination
  apply (relation "measure
    (case_sum
      (case_sum
        (case_sum (\<lambda>(e, sb, a). size a) (\<lambda>(e, sb, m). size m))
        (case_sum (\<lambda>(e, sb, c). size c)
          (case_sum (\<lambda>(e, sb, f). size f) (\<lambda>(e, sb, i, args). size_list size args))))
      (case_sum
        (case_sum (\<lambda>(e, sb, p). size p) (\<lambda>(e, sb, a). size a))
        (case_sum (\<lambda>(e, sb, c). size c)
          (case_sum (\<lambda>(e, c). size_option size c)
            (\<lambda>(e, sb, cs, i, bs). size_list (size_prod size size) bs)))))")
  apply simp_all
  done

subsection \<open>Writing after what the builder already holds\<close>

text \<open>
  \<open>prefixed p r\<close> is the result \<open>r\<close> of a run that started on an empty builder, seen
  from a builder that already held \<open>p\<close>. A function \<open>appends\<close> when starting it
  on a longer builder only prefixes its result.
\<close>

fun prefixed :: "string \<Rightarrow> result \<Rightarrow> result" where
  "prefixed p (Ok t) = Ok (p @ t)"
| "prefixed p (Err e) = Err e"
| "prefixed p (Panic m) = Panic m"

definition appends :: "(string \<Rightarrow> result) \<Rightarrow> bool" where
  "appends f \<longleftrightarrow> (\<forall>p s. f (p @ s) = prefixed p (f s))"

definition node_ok :: "(string \<Rightarrow> string) \<Rightarrow> PredicateNode \<Rightarrow> bool" where
  "node_ok esc pn \<longleftrightarrow>
     appends (\<lambda>sb. handleCompareAtom esc sb pn) \<and>
     (case pn of
        AtomPredicateNode a \<Rightarrow> appends (\<lambda>sb. exprAtom2script esc sb a)
      | BinaryComparisonPredicateNode l op r \<Rightarrow>
          appends (\<lambda>sb. handleCompareAtom esc sb l) \<and> appends (\<lambda>sb. handleCompareAtom esc sb r)
      | OtherPredicateNode t \<Rightarrow> True)"

text \<open>Go's \<^verbatim>\<open>time.Second\<close>, a \<^verbatim>\<open>time.Duration\<close>, counts nanoseconds.\<close>

definition time_Second :: int where
  "time_Second = 1000000000"

subsection \<open>What the specification says a script looks like\<close>

text \<open>
  These definitions follow the words of the specification, not the code. The comparison
  symbols: equality is \<^verbatim>\<open>==\<close>, inequality is \<^verbatim>\<open>!=\<close>, every other operator is passed
  through unchanged.
\<close>

fun spec_comparison_symbol :: "Comparison \<Rightarrow> string" where
  "spec_comparison_symbol Ceq = ''==''"
| "spec_comparison_symbol Cne = ''!=''"
| "spec_comparison_symbol (Cother text) = text"

text \<open>
  A right-nested chain \<^verbatim>\<open>$IF(cond, then, $IF(cond, then, ..., else))\<close> with one level
  per branch, in branch order, the else-value innermost. \<open>subject\<close> is the text that
  follows every when-value: empty, or \<^verbatim>\<open> == (<subject-script>)\<close>.
\<close>

fun spec_IF_chain :: "string \<Rightarrow> (string \<times> string) list \<Rightarrow> string \<Rightarrow> string" where
  "spec_IF_chain subject [] els = els"
| "spec_IF_chain subject ((whn, thn) # rest) els =
     ''$IF('' @ whn @ subject @ '', '' @ thn @ '', '' @ spec_IF_chain subject rest els @ '')''"

definition spec_subject_test :: "string option \<Rightarrow> string" where
  "spec_subject_test subject = (case subject of None \<Rightarrow> [] | Some s \<Rightarrow> '' == ('' @ s @ '')'')"

text \<open>
  The example of the specification: \<^verbatim>\<open>CASE 2+1 WHEN 1 THEN 'A' WHEN 2 THEN 'B' WHEN 3 THEN 'C' ELSE '*' END\<close>.
\<close>

definition example_case :: CaseWhenElseFunction where
  "example_case =
     CaseWhenElseFunction
       (Some (PredicateExpressionNode (AtomPredicateNode (MathAtom
          (MathExpressionAtom (ConstantExpressionAtom ''2'') ''+'' (ConstantExpressionAtom ''1''))))))
       [(FunctionArgConstant ''1'', FunctionArgConstant [SQ, CHR ''A'', SQ]),
        (FunctionArgConstant ''2'', FunctionArgConstant [SQ, CHR ''B'', SQ]),
        (FunctionArgConstant ''3'', FunctionArgConstant [SQ, CHR ''C'', SQ])]
       (Some (FunctionArgConstant [SQ, CHR ''*'', SQ]))"

text \<open>
  The kinds whose cast carries no argument besides the source, and the rendering of a size
  argument, which is \<^verbatim>\<open>0\<close> when the size is not given.
\<close>

definition spec_plain_kind :: "CastType \<Rightarrow> string option" where
  "spec_plain_kind t =
     (if t = CastToUnsigned \<or> t = CastToUnsignedInteger then Some ''UNSIGNED''
      else if t = CastToSigned \<or> t = CastToSignedInteger then Some ''SIGNED''
      else if t = CastToDate then Some ''DATE''
      else if t = CastToDateTime then Some ''DATETIME''
      else if t = CastToTime then Some ''TIME''
      else None)"

definition spec_size :: "int \<Rightarrow> string" where
  "spec_size d = (if 0 < d then FormatInt d else ''0'')"


subsection \<open>Column references and the node at which a traversal stops\<close>

text \<open>
  \<open>has_column\<close>: a column-reference atom or a column-typed function argument occurs
  somewhere in the tree.
\<close>

primrec has_column_atom :: "ExpressionAtom \<Rightarrow> bool"
and has_column_math :: "MathExpressionAtom \<Rightarrow> bool"
and has_column_node :: "Node \<Rightarrow> bool"
and has_column_pred :: "PredicateNode \<Rightarrow> bool"
and has_column_expr :: "ExpressionNode \<Rightarrow> bool"
and has_column_call :: "FunctionCall \<Rightarrow> bool"
and has_column_function :: "Function \<Rightarrow> bool"
and has_column_cast :: "CastFunction \<Rightarrow> bool"
and has_column_caseWhen :: "CaseWhenElseFunction \<Rightarrow> bool"
and has_column_arg :: "FunctionArg \<Rightarrow> bool"
where
  "has_column_atom (IntervalExpressionAtom v d) = has_column_pred v"
| "has_column_atom (MathAtom m) = has_column_math m"
| "has_column_atom (ConstantExpressionAtom text) = False"
| "has_column_atom (UnaryExpressionAtom operator inner) = has_column_node inner"
| "has_column_atom ColumnNameExpressionAtom = True"
| "has_column_atom (NestedExpressionAtom first) = has_column_expr first"
| "has_column_atom (VariableExpressionAtom n) = False"
| "has_column_atom (FunctionCallExpressionAtom f) = has_column_call f"
| "has_column_atom (OtherExpressionAtom t) = False"
| "has_column_math (MathExpressionAtom left operator right) =
     (has_column_atom left \<or> has_column_atom right)"
| "has_column_node (NodeExpressionAtom a) = has_column_atom a"
| "has_column_node (NodePredicate p) = has_column_pred p"
| "has_column_node (NodeOther t) = False"
| "has_column_pred (AtomPredicateNode a) = has_column_atom a"
| "has_column_pred (BinaryComparisonPredicateNode l op r) =
     (has_column_pred l \<or> has_column_pred r)"
| "has_column_pred (OtherPredicateNode t) = False"
| "has_column_expr (PredicateExpressionNode p) = has_column_pred p"
| "has_column_expr (OtherExpressionNode t) = False"
| "has_column_call (CallFunction fn) = has_column_function fn"
| "has_column_call CallAggrFunction = False"
| "has_column_call (CallCastFunction fn) = has_column_cast fn"
| "has_column_call (CallCaseWhenElseFunction fn) = has_column_caseWhen fn"
| "has_column_call (CallOther t) = False"
| "has_column_function (Function name args) = (True \<in> set (map has_column_arg args))"
| "has_column_cast (CastFunction cast charset src) = has_column_expr src"
| "has_column_caseWhen (CaseWhenElseFunction c branches els) =
     (map_option has_column_expr c = Some True
      \<or> True \<in> set (map (\<lambda>b. fst b \<or> snd b) (map (map_prod has_column_arg has_column_arg) branches))
      \<or> map_option has_column_arg els = Some True)"
| "has_column_arg FunctionArgColumn = True"
| "has_column_arg (FunctionArgConstant text) = False"
| "has_column_arg (FunctionArgExpression v) = has_column_expr v"
| "has_column_arg (FunctionArgFunction f) = has_column_function f"
| "has_column_arg (FunctionArgCastFunction f) = has_column_cast f"
| "has_column_arg (FunctionArgCaseWhenElseFunction f) = has_column_caseWhen f"
| "has_column_arg FunctionArgOther = False"

text \<open>
  Where a traversal stops. The translator walks a tree in a fixed order (the left operand
  before the right one, the CASE subject before the branches, every when-value before its
  then-value, the else-argument last, the head of a cast before its source) and returns at
  the first node that fails. \<open>first_stop\<close> is the first verdict of a sequence that is not
  \<open>Translates\<close>.
\<close>

datatype verdict = Translates | StopsAtColumn | StopsElsewhere

fun first_stop :: "verdict list \<Rightarrow> verdict" where
  "first_stop [] = Translates"
| "first_stop (v # vs) = (if v = Translates then first_stop vs else v)"

text \<open>The head of a cast is written without an error: the type is given and is neither
  BINARY nor JSON, or there is no type and a character set is given.\<close>

definition cast_head_ok :: "ConvertDataType option \<Rightarrow> string option \<Rightarrow> bool" where
  "cast_head_ok cast charset =
     (case cast of
        Some c \<Rightarrow> Type c \<noteq> CastToBinary \<and> Type c \<noteq> CastToJson
      | None \<Rightarrow> charset \<noteq> None)"

text \<open>
  \<open>verdict\<close>: the node at which the traversal of a tree stops, when it stops.
  \<open>StopsAtColumn\<close>: the first node that fails is a column-reference atom or a column-typed
  function argument, and it does not lie under an interval literal. \<open>StopsElsewhere\<close>:
  another node fails before any column reference is met (an unsupported construct, a cast to
  BINARY or JSON, a shape the translator does not expect), or the first failure lies under an
  interval literal, which does not pass the error on as it is. A predicate node is looked at
  as the operand of a comparison or the value of a nested expression, interval, cast or CASE
  subject (\<open>Operand\<close>: it has to be a single atom), as the operand of a unary operation
  (\<open>Comparison\<close>: it has to be a binary comparison) or as a function argument
  (\<open>Argument\<close>: either).
\<close>

datatype place = Operand | Comparison | Argument

primrec verdict_atom :: "ExpressionAtom \<Rightarrow> verdict"
and verdict_math :: "MathExpressionAtom \<Rightarrow> verdict"
and verdict_node :: "Node \<Rightarrow> verdict"
and verdict_pred :: "PredicateNode \<Rightarrow> place \<Rightarrow> verdict"
and verdict_expr :: "ExpressionNode \<Rightarrow> place \<Rightarrow> verdict"
and verdict_call :: "FunctionCall \<Rightarrow> verdict"
and verdict_function :: "Function \<Rightarrow> verdict"
and verdict_cast :: "CastFunction \<Rightarrow> verdict"
and verdict_caseWhen :: "CaseWhenElseFunction \<Rightarrow> verdict"
and verdict_arg :: "FunctionArg \<Rightarrow> verdict"
where
  "verdict_atom (IntervalExpressionAtom v d) =
     (if verdict_pred v Operand = Translates then Translates else StopsElsewhere)"
| "verdict_atom (MathAtom m) = verdict_math m"
| "verdict_atom (ConstantExpressionAtom text) = Translates"
| "verdict_atom (UnaryExpressionAtom operator inner) = verdict_node inner"
| "verdict_atom ColumnNameExpressionAtom = StopsAtColumn"
| "verdict_atom (NestedExpressionAtom first) = verdict_expr first Operand"
| "verdict_atom (VariableExpressionAtom n) = Translates"
| "verdict_atom (FunctionCallExpressionAtom f) = verdict_call f"
| "verdict_atom (OtherExpressionAtom t) = StopsElsewhere"
| "verdict_math (MathExpressionAtom left operator right) =
     first_stop [verdict_atom left, verdict_atom right]"
| "verdict_node (NodeExpressionAtom a) = verdict_atom a"
| "verdict_node (NodePredicate p) = verdict_pred p Comparison"
| "verdict_node (NodeOther t) = StopsElsewhere"
| "verdict_pred (AtomPredicateNode a) pl =
     (if pl = Comparison then StopsElsewhere else verdict_atom a)"
| "verdict_pred (BinaryComparisonPredicateNode l op r) pl =
     (if pl = Operand then StopsElsewhere
      else first_stop [verdict_pred l Operand, verdict_pred r Operand])"
| "verdict_pred (OtherPredicateNode t) pl = StopsElsewhere"
| "verdict_expr (PredicateExpressionNode p) pl = verdict_pred p pl"
| "verdict_expr (OtherExpressionNode t) pl = StopsElsewhere"
| "verdict_call (CallFunction fn) = verdict_function fn"
| "verdict_call CallAggrFunction = StopsElsewhere"
| "verdict_call (CallCastFunction fn) = verdict_cast fn"
| "verdict_call (CallCaseWhenElseFunction fn) = verdict_caseWhen fn"
| "verdict_call (CallOther t) = StopsElsewhere"
| "verdict_function (Function name args) = first_stop (map verdict_arg args)"
| "verdict_cast (CastFunction cast charset src) =
     (if cast_head_ok cast charset then verdict_expr src Operand else StopsElsewhere)"
| "verdict_caseWhen (CaseWhenElseFunction c branches els) =
     first_stop
       (case_option [] (\<lambda>v. [v]) (map_option (\<lambda>f. f Operand) (map_option verdict_expr c))
        @ concat (map (\<lambda>b. [fst b, snd b]) (map (map_prod verdict_arg verdict_arg) branches))
        @ case_option [] (\<lambda>v. [v]) (map_option verdict_arg els))"
| "verdict_arg FunctionArgColumn = StopsAtColumn"
| "verdict_arg (FunctionArgConstant text) = Translates"
| "verdict_arg (FunctionArgExpression v) = verdict_expr v Argument"
| "verdict_arg (FunctionArgFunction f) = verdict_function f"
| "verdict_arg (FunctionArgCastFunction f) = verdict_cast f"
| "verdict_arg (FunctionArgCaseWhenElseFunction f) = verdict_caseWhen f"
| "verdict_arg FunctionArgOther = Translates"

text \<open>The verdict a result stands for.\<close>

fun verdict_of :: "result \<Rightarrow> verdict" where
  "verdict_of (Ok s) = Translates"
| "verdict_of (Err e) = (if e = ErrCannotEvalWithColumnName then StopsAtColumn else StopsElsewhere)"
| "verdict_of (Panic m) = StopsElsewhere"

text \<open>The statement proved of a predicate node by induction on the tree.\<close>

definition operand_verdict_ok :: "(string \<Rightarrow> string) \<Rightarrow> PredicateNode \<Rightarrow> bool" where
  "operand_verdict_ok esc p \<longleftrightarrow>
     (\<forall>sb. verdict_of (handleCompareAtom esc sb p) = verdict_pred p Operand)"

definition pred_verdict_ok :: "(string \<Rightarrow> string) \<Rightarrow> PredicateNode \<Rightarrow> bool" where
  "pred_verdict_ok esc p \<longleftrightarrow>
     operand_verdict_ok esc p \<and>
     (case p of
        AtomPredicateNode a \<Rightarrow> (\<forall>sb. verdict_of (exprAtom2script esc sb a) = verdict_atom a)
      | BinaryComparisonPredicateNode l op r \<Rightarrow> operand_verdict_ok esc l \<and> operand_verdict_ok esc r
      | OtherPredicateNode t \<Rightarrow> True)"


section \<open>The memoized computation, the cache and the front-end\<close>

text \<open>
  The model is sequential. \<^verbatim>\<open>scriptComputer\<close> embeds a \<^verbatim>\<open>sync.Once\<close>, modelled by the flag
  \<open>once_done\<close>; \<open>source\<close> is the \<^verbatim>\<open>interface{}\<close> field (\<open>None\<close> is \<^verbatim>\<open>nil\<close>). A call
  either returns or panics (\<open>outcome\<close>); a panic still leaves its writes behind.
\<close>

datatype Source =
    SrcCaseWhenElseFunction CaseWhenElseFunction
  | SrcCastFunction CastFunction
  | SrcFunction Function
  | SrcMathExpressionAtom MathExpressionAtom
  | SrcOther string

fun typeName_Source :: "Source \<Rightarrow> string" where
  "typeName_Source (SrcCaseWhenElseFunction n) = ''*ast.CaseWhenElseFunction''"
| "typeName_Source (SrcCastFunction n) = ''*ast.CastFunction''"
| "typeName_Source (SrcFunction n) = ''*ast.Function''"
| "typeName_Source (SrcMathExpressionAtom n) = ''*ast.MathExpressionAtom''"
| "typeName_Source (SrcOther t) = t"

record scriptComputer =
  once_done :: bool
  source :: "Source option"
  script :: string
  err :: "error option"

datatype 'a outcome = Returned 'a | Panicked string

definition newScriptComputer :: "Source option \<Rightarrow> scriptComputer" where
  "newScriptComputer src = \<lparr>once_done = False, source = src, script = [], err = None\<rparr>"

text \<open>
  The type switch of the function literal in \<^verbatim>\<open>compute\<close>, each case on a fresh builder;
  \<open>compute_body\<close> is the function literal with its deferred \<^verbatim>\<open>sc.source = nil\<close>, returning
  the panic message if it panicked. \<open>Once_Do\<close> is \<^verbatim>\<open>sync.Once.Do\<close>: it runs the function
  unless the flag is set, and sets the flag also when the function panics.
\<close>

definition translate :: "(string \<Rightarrow> string) \<Rightarrow> Source option \<Rightarrow> result" where
  "translate esc src =
     (case src of
        Some (SrcCaseWhenElseFunction n) \<Rightarrow> caseWhenFunction2script esc [] n
      | Some (SrcCastFunction n) \<Rightarrow> castFunction2script esc [] n
      | Some (SrcFunction n) \<Rightarrow> function2script esc [] n
      | Some (SrcMathExpressionAtom n) \<Rightarrow> math2script esc [] n
      | Some (SrcOther t) \<Rightarrow> Err (Errorf (''invalid script source node type '' @ t))
      | None \<Rightarrow> Err (Errorf ''invalid script source node type <nil>''))"

definition compute_body :: "(string \<Rightarrow> string) \<Rightarrow> scriptComputer \<Rightarrow> scriptComputer \<times> string option" where
  "compute_body esc sc =
     (case translate esc (source sc) of
        Ok sb \<Rightarrow> (sc\<lparr>script := sb, source := None\<rparr>, None)
      | Err e \<Rightarrow> (sc\<lparr>err := Some e, source := None\<rparr>, None)
      | Panic m \<Rightarrow> (sc\<lparr>source := None\<rparr>, Some m))"

definition Once_Do ::
  "(scriptComputer \<Rightarrow> scriptComputer \<times> string option) \<Rightarrow> scriptComputer
     \<Rightarrow> scriptComputer \<times> string option" where
  "Once_Do f sc =
     (if once_done sc then (sc, None)
      else (case f sc of (sc', p) \<Rightarrow> (sc'\<lparr>once_done := True\<rparr>, p)))"

definition compute ::
  "(string \<Rightarrow> string) \<Rightarrow> scriptComputer \<Rightarrow> scriptComputer \<times> (string \<times> error option) outcome" where
  "compute esc sc =
     (case Once_Do (compute_body esc) sc of
        (sc', None) \<Rightarrow> (sc', Returned (script sc', err sc'))
      | (sc', Some m) \<Rightarrow> (sc', Panicked m))"

text \<open>
  The cache is an \<^verbatim>\<open>lru.Cache\<close> of the library \<^verbatim>\<open>hashicorp/golang-lru\<close> with 1024 entries,
  holding pointers to \<^verbatim>\<open>scriptComputer\<close> objects. The model keeps the objects in a store
  (\<open>heap\<close>, with \<open>fresh\<close> the next unused reference) and the cache as the list of its
  entries, most recently used first. The key \<^verbatim>\<open>fmt.Sprintf("%T_%p", node, node)\<close> is the
  pair of the node's type name and address. \<^verbatim>\<open>Get\<close> moves the entry it finds to the
  front; \<^verbatim>\<open>PeekOrAdd\<close> returns the entry it finds without moving it, and otherwise adds the
  new one at the front and drops the oldest entries beyond the capacity.
\<close>

type_synonym key = "string \<times> nat"

record calculator =
  lru :: "(key \<times> nat) list"
  heap :: "nat \<Rightarrow> scriptComputer option"
  fresh :: nat

definition cache_size :: nat where
  "cache_size = 1024"

definition lru_Get :: "key \<Rightarrow> (key \<times> nat) list \<Rightarrow> (key \<times> nat) list \<times> nat option" where
  "lru_Get k es =
     (case map_of es k of
        Some r \<Rightarrow> ((k, r) # filter (\<lambda>e. fst e \<noteq> k) es, Some r)
      | None \<Rightarrow> (es, None))"

definition lru_PeekOrAdd :: "key \<Rightarrow> nat \<Rightarrow> (key \<times> nat) list \<Rightarrow> (key \<times> nat) list \<times> nat option" where
  "lru_PeekOrAdd k r es =
     (case map_of es k of
        Some prev \<Rightarrow> (es, Some prev)
      | None \<Rightarrow> (take cache_size ((k, r) # es), None))"

text \<open>\<^verbatim>\<open>p.(*scriptComputer).compute()\<close> on a reference, writing the object back to the store.\<close>

definition compute_at ::
  "(string \<Rightarrow> string) \<Rightarrow> calculator \<Rightarrow> nat \<Rightarrow> calculator \<times> (string \<times> error option) outcome" where
  "compute_at esc c r =
     (case heap c r of
        None \<Rightarrow> (c, Panicked ''nil pointer dereference'')
      | Some sc \<Rightarrow>
          (case compute esc sc of (sc', out) \<Rightarrow> (c\<lparr>heap := (heap c)(r \<mapsto> sc')\<rparr>, out)))"

definition build ::
  "(string \<Rightarrow> string) \<Rightarrow> calculator \<Rightarrow> nat \<Rightarrow> Source
     \<Rightarrow> calculator \<times> (string \<times> error option) outcome" where
  "build esc c addr node =
     (case lru_Get (typeName_Source node, addr) (lru c) of
        (es, Some exist) \<Rightarrow> compute_at esc (c\<lparr>lru := es\<rparr>) exist
      | (es, None) \<Rightarrow>
          (case lru_PeekOrAdd (typeName_Source node, addr) (fresh c) es of
             (es', Some prev) \<Rightarrow>
               compute_at esc
                 (c\<lparr>lru := es', heap := (heap c)(fresh c \<mapsto> newScriptComputer (Some node)),
                    fresh := Suc (fresh c)\<rparr>) prev
           | (es', None) \<Rightarrow>
               compute_at esc
                 (c\<lparr>lru := es', heap := (heap c)(fresh c \<mapsto> newScriptComputer (Some node)),
                    fresh := Suc (fresh c)\<rparr>) (fresh c)))"

text \<open>
  The script engine is a parameter \<open>vm\<close>. The four front-ends share one body, \<open>eval_node\<close>:
  build, return \<^verbatim>\<open>nil\<close> and the error if there is one, else run the script.
\<close>

definition EvalString :: "(string \<Rightarrow> 'v list \<Rightarrow> 'v option \<times> error option) \<Rightarrow> string \<Rightarrow> 'v list
    \<Rightarrow> 'v option \<times> error option" where
  "EvalString vm scr args = vm scr args"

definition eval_node ::
  "(string \<Rightarrow> string) \<Rightarrow> (string \<Rightarrow> 'v list \<Rightarrow> 'v option \<times> error option) \<Rightarrow> calculator \<Rightarrow> nat
     \<Rightarrow> Source \<Rightarrow> 'v list \<Rightarrow> calculator \<times> ('v option \<times> error option) outcome" where
  "eval_node esc vm c addr node args =
     (case build esc c addr node of
        (c', Returned (s, Some e)) \<Rightarrow> (c', Returned (None, Some e))
      | (c', Returned (s, None)) \<Rightarrow> (c', Returned (EvalString vm s args))
      | (c', Panicked m) \<Rightarrow> (c', Panicked m))"

definition EvalCastFunction where
  "EvalCastFunction esc vm c addr node args = eval_node esc vm c addr (SrcCastFunction node) args"

definition EvalCaseWhenFunction where
  "EvalCaseWhenFunction esc vm c addr node args =
     eval_node esc vm c addr (SrcCaseWhenElseFunction node) args"

definition EvalFunction where
  "EvalFunction esc vm c addr node args = eval_node esc vm c addr (SrcFunction node) args"

definition Eval where
  "Eval esc vm c addr node args = eval_node esc vm c addr (SrcMathExpressionAtom node) args"

text \<open>
  The cache that \<^verbatim>\<open>globalCalculator\<close> creates on first use, and a script engine for the
  examples.
\<close>

definition newCalculator :: calculator where
  "newCalculator = \<lparr>lru = [], heap = Map.empty, fresh = 0\<rparr>"

definition silent_engine :: "string \<Rightarrow> int list \<Rightarrow> int option \<times> error option" where
  "silent_engine scr args = (None, None)"


section \<open>Properties of the translator\<close>

subsection \<open>The translator only appends\<close>

lemma prefixed_Nil [simp]: "prefixed [] r = r"
  by (cases r) simp_all

lemma prefixed_prefixed [simp]: "prefixed p (prefixed q r) = prefixed (p @ q) r"
  by (cases r) simp_all

lemma case_prefixed [simp]:
  "case_result f g h (prefixed p r) = case_result (\<lambda>t. f (p @ t)) g h r"
  by (cases r) simp_all

lemma prefixed_case [simp]:
  "prefixed p (case_result f Err Panic r) = case_result (\<lambda>t. prefixed p (f t)) Err Panic r"
  by (cases r) simp_all

lemma prefixed_eq_Ok [simp]: "prefixed p r = Ok x \<longleftrightarrow> (\<exists>t. r = Ok t \<and> x = p @ t)"
  by (cases r) auto

lemma prefixed_eq_Err [simp]: "prefixed p r = Err e \<longleftrightarrow> r = Err e"
  by (cases r) auto

lemma prefixed_eq_Panic [simp]: "prefixed p r = Panic m \<longleftrightarrow> r = Panic m"
  by (cases r) auto

lemma appendsD: "appends f \<Longrightarrow> f (p @ s) = prefixed p (f s)"
  by (simp add: appends_def)

lemma castHead_appends: "appends (\<lambda>sb. castHead esc sb c cs)"
  by (simp add: appends_def castHead_def writeFuncName_def writeDimension_def
      split: option.splits CastType.splits)

lemma args_appends:
  assumes "\<forall>x \<in> set args. appends (\<lambda>sb. handleArg esc sb x)"
  shows "appends (\<lambda>sb. function2script_args esc sb i args)"
  using assms
proof (induction args arbitrary: i)
  case Nil
  show ?case by (simp add: appends_def)
next
  case (Cons arg rest)
  have a: "\<And>p s. handleArg esc (p @ s) arg = prefixed p (handleArg esc s arg)"
    using Cons.prems by (simp add: appends_def)
  have r: "\<And>p s j. function2script_args esc (p @ s) j rest
                 = prefixed p (function2script_args esc s j rest)"
    using Cons.IH Cons.prems by (simp add: appends_def)
  show ?case
    unfolding appends_def
  proof (intro allI)
    fix p s
    show "function2script_args esc (p @ s) i (arg # rest)
          = prefixed p (function2script_args esc s i (arg # rest))"
      by (simp add: a r split: result.splits)
  qed
qed

lemma branches_appends:
  assumes "\<forall>x \<in> set bs. appends (\<lambda>sb. handleArg esc sb (fst x)) \<and> appends (\<lambda>sb. handleArg esc sb (snd x))"
  shows "appends (\<lambda>sb. caseWhen_branches esc sb cs i bs)"
  using assms
proof (induction bs arbitrary: i cs)
  case Nil
  show ?case by (simp add: appends_def)
next
  case (Cons b rest)
  obtain whn thn where b: "b = (whn, thn)"
    by (cases b)
  have w: "\<And>p s. handleArg esc (p @ s) whn = prefixed p (handleArg esc s whn)"
    and t: "\<And>p s. handleArg esc (p @ s) thn = prefixed p (handleArg esc s thn)"
    using Cons.prems by (simp_all add: appends_def b)
  have r: "\<And>p s j cs. caseWhen_branches esc (p @ s) cs j rest
                 = prefixed p (caseWhen_branches esc s cs j rest)"
    using Cons.IH Cons.prems by (simp add: appends_def)
  show ?case
    unfolding appends_def b
  proof (intro allI)
    fix p s
    show "caseWhen_branches esc (p @ s) cs i ((whn, thn) # rest)
          = prefixed p (caseWhen_branches esc s cs i ((whn, thn) # rest))"
      by (simp add: w t r writeFuncName_def split: result.splits)
  qed
qed

lemma translator_appends:
  fixes esc :: "string \<Rightarrow> string"
  shows "appends (\<lambda>sb. exprAtom2script esc sb a)"
    and "appends (\<lambda>sb. math2script esc sb m)"
    and "case n of NodeExpressionAtom it \<Rightarrow> appends (\<lambda>sb. exprAtom2script esc sb it)
         | NodePredicate pn' \<Rightarrow> node_ok esc pn' | NodeOther t \<Rightarrow> True"
    and "node_ok esc pn"
    and "case en of PredicateExpressionNode pn' \<Rightarrow> node_ok esc pn' | OtherExpressionNode t \<Rightarrow> True"
    and "case fc of CallFunction fn \<Rightarrow> appends (\<lambda>sb. function2script esc sb fn)
         | CallCastFunction fn \<Rightarrow> appends (\<lambda>sb. castFunction2script esc sb fn)
         | CallCaseWhenElseFunction fn \<Rightarrow> appends (\<lambda>sb. caseWhenFunction2script esc sb fn)
         | _ \<Rightarrow> True"
    and "appends (\<lambda>sb. function2script esc sb f)"
    and "appends (\<lambda>sb. castFunction2script esc sb cf)"
    and "appends (\<lambda>sb. caseWhenFunction2script esc sb cw)"
    and "appends (\<lambda>sb. handleArg esc sb arg)"
proof (induct a and m and n and pn and en and fc and f and cf and cw and arg)
  case (Function name args)
  then have "appends (\<lambda>sb. function2script_args esc sb 0 args)"
    by (intro args_appends) simp
  then show ?case
    by (simp add: appends_def writeFuncName_def split: result.splits)
next
  case (CastFunction c cs src)
  show ?case
    using CastFunction castHead_appends [of esc c cs]
    by (auto simp: appends_def node_ok_def split: result.splits ExpressionNode.splits PredicateNode.splits)
next
  case (CaseWhenElseFunction c bs els)
  have "\<forall>x \<in> set bs. appends (\<lambda>sb. handleArg esc sb (fst x)) \<and> appends (\<lambda>sb. handleArg esc sb (snd x))"
    using CaseWhenElseFunction(2,3) by (auto simp: fsts.simps snds.simps)
  then have b: "\<And>cs. appends (\<lambda>sb. caseWhen_branches esc sb cs 0 bs)"
    by (intro branches_appends)
  show ?case
  proof (cases els)
    case None
    then show ?thesis using b
      by (simp add: appends_def split: result.splits)
  next
    case (Some e)
    then have "appends (\<lambda>sb. handleArg esc sb e)"
      using CaseWhenElseFunction(4) by simp
    then show ?thesis using b Some
      by (simp add: appends_def split: result.splits)
  qed
qed (auto simp: appends_def node_ok_def FuncUnary_def writeVariable_def
      split: result.splits PredicateNode.splits ExpressionNode.splits Node.splits Comparison.splits
      FunctionCall.splits)


lemma exprAtom2script_prefixed:
  "exprAtom2script esc sb a = prefixed sb (exprAtom2script esc [] a)"
  using translator_appends(1) [of esc a] appendsD [of "\<lambda>sb. exprAtom2script esc sb a" sb "[]"]
  by simp

lemma math2script_prefixed:
  "math2script esc sb m = prefixed sb (math2script esc [] m)"
  using translator_appends(2) [of esc m] appendsD [of "\<lambda>sb. math2script esc sb m" sb "[]"]
  by simp

lemma handleCompareAtom_prefixed:
  "handleCompareAtom esc sb pn = prefixed sb (handleCompareAtom esc [] pn)"
  using translator_appends(4) [of esc pn] appendsD [of "\<lambda>sb. handleCompareAtom esc sb pn" sb "[]"]
  by (simp add: node_ok_def)

lemma function2script_prefixed:
  "function2script esc sb f = prefixed sb (function2script esc [] f)"
  using translator_appends(7) [of esc f] appendsD [of "\<lambda>sb. function2script esc sb f" sb "[]"]
  by simp

lemma castFunction2script_prefixed:
  "castFunction2script esc sb cf = prefixed sb (castFunction2script esc [] cf)"
  using translator_appends(8) [of esc cf] appendsD [of "\<lambda>sb. castFunction2script esc sb cf" sb "[]"]
  by simp

lemma caseWhenFunction2script_prefixed:
  "caseWhenFunction2script esc sb cw = prefixed sb (caseWhenFunction2script esc [] cw)"
  using translator_appends(9) [of esc cw] appendsD [of "\<lambda>sb. caseWhenFunction2script esc sb cw" sb "[]"]
  by simp

lemma handleArg_prefixed:
  "handleArg esc sb arg = prefixed sb (handleArg esc [] arg)"
  using translator_appends(10) [of esc arg] appendsD [of "\<lambda>sb. handleArg esc sb arg" sb "[]"]
  by simp

subsection \<open>Interval literals\<close>

text \<open>
  Claim C7. An interval literal whose value is a single-atom predicate is rendered as the
  translation of the atom, then \<^verbatim>\<open> * \<close>, then the interval's duration in nanoseconds
  printed in decimal. In particular an interval of five seconds over an atom that renders
  as \<^verbatim>\<open>x\<close> gives \<^verbatim>\<open>x * 5000000000\<close>.
\<close>

theorem interval_renders_nanoseconds:
  assumes "exprAtom2script esc sb a = Ok sb1"
  shows "exprAtom2script esc sb (IntervalExpressionAtom (AtomPredicateNode a) d)
           = Ok (sb1 @ '' * '' @ FormatInt d)
         \<and> (sb1 = ''x'' \<longrightarrow>
              exprAtom2script esc sb
                (IntervalExpressionAtom (AtomPredicateNode a) (5 * time_Second))
              = Ok ''x * 5000000000'')"
  using assms by (simp add: time_Second_def FormatInt_def FormatUint.simps)

theorem interval_renders_nanoseconds_witness:
  "exprAtom2script id [] (ConstantExpressionAtom ''x'') = Ok ''x''
   \<and> exprAtom2script id [] (IntervalExpressionAtom (AtomPredicateNode (ConstantExpressionAtom ''x'')) 7)
       = Ok ''x * 7''
   \<and> exprAtom2script id []
         (IntervalExpressionAtom (AtomPredicateNode (ConstantExpressionAtom ''x'')) (5 * time_Second))
       = Ok ''x * 5000000000''"
proof -
  have h: "exprAtom2script id [] (ConstantExpressionAtom ''x'') = Ok ''x''"
    by simp
  have "FormatInt 7 = ''7''"
    by (simp add: FormatInt_def FormatUint.simps)
  then show ?thesis
    using h interval_renders_nanoseconds [OF h, of 7] by simp
qed


subsection \<open>CASE-WHEN-ELSE\<close>

lemma branches_chain:
  assumes "list_all2 (\<lambda>b t. handleArg esc [] (fst b) = Ok (fst t) \<and> handleArg esc [] (snd b) = Ok (snd t)) bs ts"
    and "0 < i \<or> ts \<noteq> []"
  shows "\<exists>body. caseWhen_branches esc sb cs i bs = Ok (sb @ body) \<and>
           body @ '', '' @ els @ replicate (length ts) (CHR '')'')
           = (if 0 < i then '', '' else []) @
             spec_IF_chain (if cs \<noteq> [] then '' == ('' @ cs @ '')'' else []) ts els"
  using assms
proof (induction bs ts arbitrary: sb i rule: list_all2_induct)
  case Nil
  then show ?case by simp
next
  case (Cons b bs t ts)
  obtain whn thn where b: "b = (whn, thn)" by (cases b)
  obtain wt tt where t: "t = (wt, tt)" by (cases t)
  have w: "handleArg esc p whn = Ok (p @ wt)" for p
    using Cons.hyps(1) handleArg_prefixed [of esc p whn] by (simp add: b t)
  have th: "handleArg esc p thn = Ok (p @ tt)" for p
    using Cons.hyps(1) handleArg_prefixed [of esc p thn] by (simp add: b t)
  let ?pre = "(if 0 < i then '', '' else []) @ ''$IF('' @ wt
              @ (if cs \<noteq> [] then '' == ('' @ cs @ '')'' else []) @ '', '' @ tt"
  from Cons.IH [of "Suc i" "sb @ ?pre"]
  obtain body where body: "caseWhen_branches esc (sb @ ?pre) cs (Suc i) bs = Ok ((sb @ ?pre) @ body)"
    and eq: "body @ '', '' @ els @ replicate (length ts) (CHR '')'')
             = '', '' @ spec_IF_chain (if cs \<noteq> [] then '' == ('' @ cs @ '')'' else []) ts els"
    by auto
  have step: "caseWhen_branches esc sb cs i (b # bs) = Ok ((sb @ ?pre) @ body)"
    using body
    by (cases "0 < i"; cases "cs = []") (simp_all add: b w th writeFuncName_def prefixMySQLFunc_def)
  define pre where "pre = ?pre"
  have "(pre @ body) @ '', '' @ els @ replicate (length (t # ts)) (CHR '')'')
        = pre @ (body @ '', '' @ els @ replicate (length ts) (CHR '')'')) @ '')''"
    by (simp add: replicate_append_same)
  also have "\<dots> = (if 0 < i then '', '' else []) @
             spec_IF_chain (if cs \<noteq> [] then '' == ('' @ cs @ '')'' else []) (t # ts) els"
    unfolding eq by (simp add: pre_def t)
  finally show ?case
    using step by (intro exI [of _ "pre @ body"]) (simp add: pre_def)
qed

text \<open>
  Claim C3 as stated fails on two nodes. With no branch the separator before the else-value
  is still written, so the script is \<^verbatim>\<open>, null\<close> and not \<^verbatim>\<open>null\<close>. With a subject whose
  script is empty the test \<^verbatim>\<open>len(caseScript) > 0\<close> treats the subject as absent, so the
  when-value is not followed by \<^verbatim>\<open> == ()\<close>.
\<close>

theorem case_when_counterexample:
  "caseWhenFunction2script id [] (CaseWhenElseFunction None [] None) = Ok '', null''
   \<and> spec_IF_chain (spec_subject_test None) [] ''null'' = ''null''
   \<and> caseWhenFunction2script id []
       (CaseWhenElseFunction
          (Some (PredicateExpressionNode (AtomPredicateNode (ConstantExpressionAtom []))))
          [(FunctionArgConstant ''1'', FunctionArgConstant ''2'')] None)
     = Ok ''$IF(1, 2, null)''
   \<and> spec_IF_chain (spec_subject_test (Some [])) [(''1'', ''2'')] ''null''
     = ''$IF(1 == (), 2, null)''"
  by (simp add: writeFuncName_def prefixMySQLFunc_def spec_subject_test_def)

text \<open>
  Claim C3, amended. For every CASE-WHEN-ELSE node with at least one branch, whose branch
  arguments, else-argument and subject translate, the script is the right-nested \<^verbatim>\<open>$IF\<close>
  chain of the specification: one level per branch, branches in declared order, every
  when-value followed by \<^verbatim>\<open> == (<subject-script>)\<close> when the script of the subject is not
  empty (a node without a subject has the empty subject script), and the translated
  else-argument, or \<^verbatim>\<open>null\<close>, innermost. The example of the specification compiles to the
  script the specification gives.
\<close>

theorem case_when_renders_nested_IF:
  assumes "branches \<noteq> []"
    and "list_all2 (\<lambda>b t. handleArg esc [] (fst b) = Ok (fst t) \<and> handleArg esc [] (snd b) = Ok (snd t))
           branches texts"
    and "caseWhen_header esc c = Ok cs"
    and "case els of None \<Rightarrow> et = ''null'' | Some e \<Rightarrow> handleArg esc [] e = Ok et"
  shows "caseWhenFunction2script esc sb (CaseWhenElseFunction c branches els)
           = Ok (sb @ spec_IF_chain (spec_subject_test (if cs = [] then None else Some cs)) texts et)
         \<and> caseWhenFunction2script esc sb example_case
           = Ok (sb @ ''$IF(1 == (2 + 1), 'A', $IF(2 == (2 + 1), 'B', $IF(3 == (2 + 1), 'C', '*')))'')"
proof
  have ne: "texts \<noteq> []"
    using assms(1,2) by auto
  have len: "length branches = length texts"
    using assms(2) by (rule list_all2_lengthD)
  have subj: "(if cs \<noteq> [] then '' == ('' @ cs @ '')'' else [])
              = spec_subject_test (if cs = [] then None else Some cs)"
    by (simp add: spec_subject_test_def)
  from branches_chain [OF assms(2), of 0 sb cs et] ne
  obtain body where body: "caseWhen_branches esc sb cs 0 branches = Ok (sb @ body)"
    and eq: "body @ '', '' @ et @ replicate (length texts) (CHR '')'')
             = spec_IF_chain (spec_subject_test (if cs = [] then None else Some cs)) texts et"
    unfolding subj by auto
  show "caseWhenFunction2script esc sb (CaseWhenElseFunction c branches els)
           = Ok (sb @ spec_IF_chain (spec_subject_test (if cs = [] then None else Some cs)) texts et)"
  proof (cases els)
    case None
    then have "et = ''null''"
      using assms(4) by simp
    then show ?thesis
      using None body eq assms(3) by (simp add: len)
  next
    case (Some e)
    then have "handleArg esc (sb @ body @ '', '') e = Ok ((sb @ body @ '', '') @ et)"
      using assms(4) handleArg_prefixed [of esc "sb @ body @ '', ''" e] by simp
    then show ?thesis
      using Some body eq assms(3) by (simp add: len)
  qed
  show "caseWhenFunction2script esc sb example_case
           = Ok (sb @ ''$IF(1 == (2 + 1), 'A', $IF(2 == (2 + 1), 'B', $IF(3 == (2 + 1), 'C', '*')))'')"
    by (simp add: example_case_def writeFuncName_def prefixMySQLFunc_def)
qed

theorem case_when_renders_nested_IF_witness:
  "caseWhenFunction2script id ''x = '' example_case
     = Ok (''x = '' @ spec_IF_chain '' == (2 + 1)''
             [(''1'', [SQ, CHR ''A'', SQ]), (''2'', [SQ, CHR ''B'', SQ]), (''3'', [SQ, CHR ''C'', SQ])]
             [SQ, CHR ''*'', SQ])
   \<and> caseWhenFunction2script id ''x = '' example_case
     = Ok ''x = $IF(1 == (2 + 1), 'A', $IF(2 == (2 + 1), 'B', $IF(3 == (2 + 1), 'C', '*')))''"
  using case_when_renders_nested_IF
    [where branches = "[(FunctionArgConstant ''1'', FunctionArgConstant [SQ, CHR ''A'', SQ]),
          (FunctionArgConstant ''2'', FunctionArgConstant [SQ, CHR ''B'', SQ]),
          (FunctionArgConstant ''3'', FunctionArgConstant [SQ, CHR ''C'', SQ])]"
       and esc = id
       and texts = "[(''1'', [SQ, CHR ''A'', SQ]), (''2'', [SQ, CHR ''B'', SQ]), (''3'', [SQ, CHR ''C'', SQ])]"
       and c = "Some (PredicateExpressionNode (AtomPredicateNode (MathAtom
          (MathExpressionAtom (ConstantExpressionAtom ''2'') ''+'' (ConstantExpressionAtom ''1'')))))"
       and cs = "''2 + 1''"
       and els = "Some (FunctionArgConstant [SQ, CHR ''*'', SQ])"
       and et = "[SQ, CHR ''*'', SQ]"
       and sb = "''x = ''"]
  by (simp add: example_case_def spec_subject_test_def)

subsection \<open>Comparison operators\<close>

text \<open>
  Claim C8. A binary comparison, as a function argument or as the operand of a unary
  operation, is rendered as the left operand, a space, the operator and a space, the right
  operand; the operator is \<^verbatim>\<open>==\<close> for equality, \<^verbatim>\<open>!=\<close> for inequality and the operator's
  own text otherwise.
\<close>

theorem comparison_operator_rendering:
  assumes "handleCompareAtom esc [] l = Ok lt"
    and "handleCompareAtom esc [] r = Ok rt"
  shows "handleArg esc sb
           (FunctionArgExpression (PredicateExpressionNode (BinaryComparisonPredicateNode l op r)))
           = Ok (sb @ lt @ '' '' @ spec_comparison_symbol op @ '' '' @ rt)
         \<and> exprAtom2script esc sb
             (UnaryExpressionAtom operator (NodePredicate (BinaryComparisonPredicateNode l op r)))
           = Ok (sb @ FuncUnary @ ''('' @ [SQ] @ operator @ [SQ] @ '', ''
                 @ lt @ '' '' @ spec_comparison_symbol op @ '' '' @ rt @ '')'')"
proof -
  have l: "handleCompareAtom esc p l = Ok (p @ lt)" for p
    using assms(1) handleCompareAtom_prefixed [of esc p l] by simp
  have r: "handleCompareAtom esc p r = Ok (p @ rt)" for p
    using assms(2) handleCompareAtom_prefixed [of esc p r] by simp
  show ?thesis
    by (cases op) (simp_all add: l r)
qed

theorem comparison_operator_rendering_witness:
  "handleArg id [] (FunctionArgExpression (PredicateExpressionNode
      (BinaryComparisonPredicateNode (AtomPredicateNode (ConstantExpressionAtom ''1'')) Ceq
         (AtomPredicateNode (ConstantExpressionAtom ''2'')))))
     = Ok ''1 == 2''
   \<and> exprAtom2script id [] (UnaryExpressionAtom ''!'' (NodePredicate
      (BinaryComparisonPredicateNode (AtomPredicateNode (ConstantExpressionAtom ''1'')) Cne
         (AtomPredicateNode (VariableExpressionAtom 0)))))
     = Ok ''$UNARY('!', 1 != arguments[0])''
   \<and> handleArg id [] (FunctionArgExpression (PredicateExpressionNode
      (BinaryComparisonPredicateNode (AtomPredicateNode (ConstantExpressionAtom ''1'')) (Cother ''<='')
         (AtomPredicateNode (ConstantExpressionAtom ''2'')))))
     = Ok ''1 <= 2''"
proof -
  have c1: "handleCompareAtom id [] (AtomPredicateNode (ConstantExpressionAtom ''1'')) = Ok ''1''"
    by simp
  have c2: "handleCompareAtom id [] (AtomPredicateNode (ConstantExpressionAtom ''2'')) = Ok ''2''"
    by simp
  have v0: "handleCompareAtom id [] (AtomPredicateNode (VariableExpressionAtom 0)) = Ok ''arguments[0]''"
    by (simp add: writeVariable_def FormatInt_def FormatUint.simps)
  show ?thesis
    using comparison_operator_rendering [OF c1 c2, where sb = "[]" and op = Ceq and operator = "[]"]
      comparison_operator_rendering [OF c1 v0, where sb = "[]" and op = Cne and operator = "''!''"]
      comparison_operator_rendering [OF c1 c2, where sb = "[]" and op = "Cother ''<=''" and operator = "[]"]
    by (simp add: FuncUnary_def)
qed

subsection \<open>Determinism\<close>

text \<open>
  Claim C9. Two runs of the translator on the same node, each on its own builder, write the
  same text: the results differ only by what the builders held before, and one outcome,
  fixed by the node, describes every run.
\<close>

theorem translation_deterministic:
  "(exprAtom2script esc sb1 a = Ok s1 \<and> exprAtom2script esc sb2 a = Ok s2
      \<longrightarrow> drop (length sb1) s1 = drop (length sb2) s2)
   \<and> (math2script esc sb1 m = Ok t1 \<and> math2script esc sb2 m = Ok t2
      \<longrightarrow> drop (length sb1) t1 = drop (length sb2) t2)
   \<and> (\<exists>r. \<forall>sb. exprAtom2script esc sb a = prefixed sb r)
   \<and> (\<exists>r. \<forall>sb. math2script esc sb m = prefixed sb r)"
proof (intro conjI impI)
  assume "exprAtom2script esc sb1 a = Ok s1 \<and> exprAtom2script esc sb2 a = Ok s2"
  then show "drop (length sb1) s1 = drop (length sb2) s2"
    using exprAtom2script_prefixed [of esc sb1 a] exprAtom2script_prefixed [of esc sb2 a]
    by auto
next
  assume "math2script esc sb1 m = Ok t1 \<and> math2script esc sb2 m = Ok t2"
  then show "drop (length sb1) t1 = drop (length sb2) t2"
    using math2script_prefixed [of esc sb1 m] math2script_prefixed [of esc sb2 m]
    by auto
next
  show "\<exists>r. \<forall>sb. exprAtom2script esc sb a = prefixed sb r"
    using exprAtom2script_prefixed by blast
next
  show "\<exists>r. \<forall>sb. math2script esc sb m = prefixed sb r"
    using math2script_prefixed by blast
qed

theorem translation_deterministic_witness:
  "math2script id ''ab''
     (MathExpressionAtom (ConstantExpressionAtom ''2'') ''+'' (ConstantExpressionAtom ''1''))
     = Ok ''ab2 + 1''
   \<and> math2script id ''c''
     (MathExpressionAtom (ConstantExpressionAtom ''2'') ''+'' (ConstantExpressionAtom ''1''))
     = Ok ''c2 + 1''
   \<and> drop (length ''ab'') ''ab2 + 1'' = drop (length ''c'') ''c2 + 1''"
proof -
  let ?m = "MathExpressionAtom (ConstantExpressionAtom ''2'') ''+'' (ConstantExpressionAtom ''1'')"
  have 1: "math2script id ''ab'' ?m = Ok ''ab2 + 1''" and 2: "math2script id ''c'' ?m = Ok ''c2 + 1''"
    and 3: "exprAtom2script id ''ab'' (MathAtom ?m) = Ok ''ab2 + 1''"
    and 4: "exprAtom2script id ''c'' (MathAtom ?m) = Ok ''c2 + 1''"
    by simp_all
  have "drop (length ''ab'') ''ab2 + 1'' = drop (length ''c'') ''c2 + 1''"
    using translation_deterministic [where esc = id and ?sb1.0 = "''ab''" and a = "MathAtom ?m"
        and ?s1.0 = "''ab2 + 1''" and ?sb2.0 = "''c''" and ?s2.0 = "''c2 + 1''" and m = ?m
        and ?t1.0 = "''ab2 + 1''" and ?t2.0 = "''c2 + 1''"] 1 2 3 4
    by blast
  then show ?thesis
    using 1 2 by blast
qed

subsection \<open>CAST\<close>

lemma FormatInt_10: "FormatInt 10 = ''10''"
  by (simp add: FormatInt_def FormatUint.simps)

text \<open>
  Claim C4. Over a source atom that translates to \<open>xt\<close>: a cast to CHAR with size 10 and
  charset \<^verbatim>\<open>utf8\<close> gives \<^verbatim>\<open>$CAST_CHAR(10, 'utf8', xt)\<close> (for an escape function that
  leaves \<^verbatim>\<open>utf8\<close> alone); a cast to UNSIGNED, SIGNED, DATE, DATETIME or TIME gives
  \<^verbatim>\<open>$CAST_<KIND>(xt)\<close>; NCHAR, CHAR and DECIMAL put their sizes first, \<^verbatim>\<open>0\<close> for a size
  that is not positive; CHAR then carries the escaped charset in single quotes, empty when
  there is none; a charset-only cast gives \<^verbatim>\<open>$CAST_CHARSET('<escaped-charset>', xt)\<close>; a cast
  to BINARY or JSON fails with an error whatever its source is.
\<close>

theorem cast_rendering:
  assumes "exprAtom2script esc [] x = Ok xt"
  shows "(esc ''utf8'' = ''utf8'' \<longrightarrow>
            castFunction2script esc sb
              (CastFunction (Some \<lparr>Type = CastToChar, Dimensions = (10, d1), Charset = Some ''utf8''\<rparr>) cs
                 (PredicateExpressionNode (AtomPredicateNode x)))
            = Ok (sb @ ''$CAST_CHAR(10, 'utf8', '' @ xt @ '')''))
       \<and> (spec_plain_kind (Type c) = Some kind \<longrightarrow>
            castFunction2script esc sb
              (CastFunction (Some c) cs (PredicateExpressionNode (AtomPredicateNode x)))
            = Ok (sb @ ''$CAST_'' @ kind @ ''('' @ xt @ '')''))
       \<and> (Type c = CastToNChar \<longrightarrow>
            castFunction2script esc sb
              (CastFunction (Some c) cs (PredicateExpressionNode (AtomPredicateNode x)))
            = Ok (sb @ ''$CAST_NCHAR('' @ spec_size (fst (Dimensions c)) @ '', '' @ xt @ '')''))
       \<and> (Type c = CastToChar \<longrightarrow>
            castFunction2script esc sb
              (CastFunction (Some c) cs (PredicateExpressionNode (AtomPredicateNode x)))
            = Ok (sb @ ''$CAST_CHAR('' @ spec_size (fst (Dimensions c)) @ '', '' @ [SQ]
                  @ (case Charset c of None \<Rightarrow> [] | Some charset \<Rightarrow> esc charset) @ [SQ]
                  @ '', '' @ xt @ '')''))
       \<and> (Type c = CastToDecimal \<longrightarrow>
            castFunction2script esc sb
              (CastFunction (Some c) cs (PredicateExpressionNode (AtomPredicateNode x)))
            = Ok (sb @ ''$CAST_DECIMAL('' @ spec_size (fst (Dimensions c)) @ '', ''
                  @ spec_size (snd (Dimensions c)) @ '', '' @ xt @ '')''))
       \<and> castFunction2script esc sb
            (CastFunction None (Some charset) (PredicateExpressionNode (AtomPredicateNode x)))
          = Ok (sb @ ''$CAST_CHARSET('' @ [SQ] @ esc charset @ [SQ] @ '', '' @ xt @ '')'')
       \<and> (Type c = CastToBinary \<or> Type c = CastToJson \<longrightarrow>
            (\<exists>msg. castFunction2script esc sb (CastFunction (Some c) cs src) = Err (Errorf msg)))"
proof -
  have x: "exprAtom2script esc p x = Ok (p @ xt)" for p
    using assms exprAtom2script_prefixed [of esc p x] by simp
  show ?thesis
    by (auto simp: x castHead_def writeFuncName_def prefixMySQLFunc_def writeDimension_def
        spec_size_def spec_plain_kind_def FormatInt_10
        split: option.splits if_splits)
qed

theorem cast_rendering_witness:
  "castFunction2script id []
     (CastFunction (Some \<lparr>Type = CastToChar, Dimensions = (10, 0), Charset = Some ''utf8''\<rparr>) None
        (PredicateExpressionNode (AtomPredicateNode (ConstantExpressionAtom ''x''))))
     = Ok ''$CAST_CHAR(10, 'utf8', x)''
   \<and> castFunction2script id []
     (CastFunction (Some \<lparr>Type = CastToUnsigned, Dimensions = (0, 0), Charset = None\<rparr>) None
        (PredicateExpressionNode (AtomPredicateNode (ConstantExpressionAtom ''x''))))
     = Ok ''$CAST_UNSIGNED(x)''
   \<and> castFunction2script id []
     (CastFunction (Some \<lparr>Type = CastToDecimal, Dimensions = (10, 0), Charset = None\<rparr>) None
        (PredicateExpressionNode (AtomPredicateNode (ConstantExpressionAtom ''x''))))
     = Ok ''$CAST_DECIMAL(10, 0, x)''
   \<and> castFunction2script id []
     (CastFunction None (Some ''gbk'')
        (PredicateExpressionNode (AtomPredicateNode (ConstantExpressionAtom ''x''))))
     = Ok ''$CAST_CHARSET('gbk', x)''"
proof -
  have h: "exprAtom2script id [] (ConstantExpressionAtom ''x'') = Ok ''x''"
    by simp
  show ?thesis
    using cast_rendering [OF h, where sb = "[]" and ?d1.0 = 0 and cs = None
        and c = "\<lparr>Type = CastToUnsigned, Dimensions = (0, 0), Charset = None\<rparr>"
        and kind = "''UNSIGNED''" and charset = "''gbk''"]
      cast_rendering [OF h, where sb = "[]" and ?d1.0 = 0 and cs = None
        and c = "\<lparr>Type = CastToDecimal, Dimensions = (10, 0), Charset = None\<rparr>"
        and kind = "''UNSIGNED''" and charset = "''gbk''"]
    by (simp add: spec_plain_kind_def spec_size_def FormatInt_10)
qed

text \<open>
  Claim C10. When the cast type is present but is none of the kinds the switch names, the
  switch writes nothing and returns no error, so over a source atom that translates to
  \<open>xt\<close> the script is \<open>xt\<close> followed by a closing parenthesis, with no function name.
\<close>

theorem cast_unknown_type:
  assumes "Type c = CastToOther"
    and "exprAtom2script esc [] x = Ok xt"
  shows "castHead esc sb (Some c) cs = Ok sb
       \<and> castFunction2script esc sb
            (CastFunction (Some c) cs (PredicateExpressionNode (AtomPredicateNode x)))
          = Ok (sb @ xt @ '')'')"
proof -
  have x: "exprAtom2script esc p x = Ok (p @ xt)" for p
    using assms(2) exprAtom2script_prefixed [of esc p x] by simp
  show ?thesis
    using assms(1) by (simp add: x castHead_def)
qed

theorem cast_unknown_type_witness:
  "castHead id [] (Some \<lparr>Type = CastToOther, Dimensions = (0, 0), Charset = None\<rparr>) None = Ok []
   \<and> castFunction2script id []
     (CastFunction (Some \<lparr>Type = CastToOther, Dimensions = (0, 0), Charset = None\<rparr>) None
        (PredicateExpressionNode (AtomPredicateNode (ConstantExpressionAtom ''x''))))
     = Ok ''x)''"
proof -
  have h: "exprAtom2script id [] (ConstantExpressionAtom ''x'') = Ok ''x''"
    by simp
  show ?thesis
    using cast_unknown_type [OF _ h, where sb = "[]" and cs = None
        and c = "\<lparr>Type = CastToOther, Dimensions = (0, 0), Charset = None\<rparr>"]
    by simp
qed

subsection \<open>Column references\<close>

lemma verdict_of_eq_column:
  "verdict_of r = StopsAtColumn \<longleftrightarrow> r = Err ErrCannotEvalWithColumnName"
  by (cases r) auto

lemma verdict_of_eq_Translates: "verdict_of r = Translates \<longleftrightarrow> (\<exists>s. r = Ok s)"
  by (cases r) auto

lemma verdict_wrap [simp]:
  "verdict_of (case r of Ok s \<Rightarrow> Ok (h s) | Err e \<Rightarrow> Err e | Panic m \<Rightarrow> Panic m) = verdict_of r"
  by (cases r) auto

lemma verdict_seq:
  "verdict_of r = v \<Longrightarrow> (\<And>s. r = Ok s \<Longrightarrow> verdict_of (g s) = first_stop vs) \<Longrightarrow>
   verdict_of (case r of Ok s \<Rightarrow> g s | Err e \<Rightarrow> Err e | Panic m \<Rightarrow> Panic m) = first_stop (v # vs)"
  by (cases r) (auto split: if_splits)

lemma args_verdict:
  assumes "\<forall>x \<in> set args. \<forall>sb. verdict_of (handleArg esc sb x) = verdict_arg x"
  shows "verdict_of (function2script_args esc sb i args) = first_stop (map verdict_arg args)"
  using assms
proof (induction args arbitrary: sb i)
  case Nil
  show ?case by simp
next
  case (Cons arg rest)
  have "verdict_of
          (case handleArg esc (if i > 0 then (sb @ '','') @ '' '' else sb) arg of
             Ok sb1 \<Rightarrow> function2script_args esc sb1 (Suc i) rest
           | Err e \<Rightarrow> Err e | Panic m \<Rightarrow> Panic m)
        = first_stop (verdict_arg arg # map verdict_arg rest)"
    using Cons.IH Cons.prems by (intro verdict_seq) simp_all
  then show ?case by simp
qed

lemma branches_verdict:
  assumes "\<forall>b \<in> set bs. \<forall>sb. verdict_of (handleArg esc sb (fst b)) = verdict_arg (fst b)
                           \<and> verdict_of (handleArg esc sb (snd b)) = verdict_arg (snd b)"
  shows "verdict_of (caseWhen_branches esc sb cs i bs)
         = first_stop (concat (map (\<lambda>b. [verdict_arg (fst b), verdict_arg (snd b)]) bs))"
  using assms
proof (induction bs arbitrary: sb i)
  case Nil
  show ?case by simp
next
  case (Cons b rest)
  obtain whn thn where b: "b = (whn, thn)"
    by (cases b)
  have "verdict_of
          (case handleArg esc (writeFuncName (if i > 0 then sb @ '', '' else sb) ''IF'' @ ''('') whn of
             Ok sb1 \<Rightarrow>
               (case handleArg esc
                       ((if length cs > 0 then ((sb1 @ '' == ('') @ cs) @ '')'' else sb1) @ '', '')
                       thn of
                  Ok sb2 \<Rightarrow> caseWhen_branches esc sb2 cs (Suc i) rest
                | Err e \<Rightarrow> Err e | Panic m \<Rightarrow> Panic m)
           | Err e \<Rightarrow> Err e | Panic m \<Rightarrow> Panic m)
        = first_stop (verdict_arg whn # verdict_arg thn
            # concat (map (\<lambda>b. [verdict_arg (fst b), verdict_arg (snd b)]) rest))"
    using Cons.IH Cons.prems by (intro verdict_seq) (simp_all add: b)
  then show ?case by (simp add: b)
qed

lemma castHead_verdict:
  "verdict_of (castHead esc sb cast charset)
   = (if cast_head_ok cast charset then Translates else StopsElsewhere)"
  by (auto simp: cast_head_ok_def castHead_def split: option.splits CastType.splits)


lemma translator_verdict:
  fixes esc :: "string \<Rightarrow> string"
  shows "\<forall>sb. verdict_of (exprAtom2script esc sb a) = verdict_atom a"
    and "\<forall>sb. verdict_of (math2script esc sb m) = verdict_math m"
    and "case n of
           NodeExpressionAtom it \<Rightarrow> (\<forall>sb. verdict_of (exprAtom2script esc sb it) = verdict_atom it)
         | NodePredicate p' \<Rightarrow> pred_verdict_ok esc p'
         | NodeOther t \<Rightarrow> True"
    and "pred_verdict_ok esc p"
    and "case en of PredicateExpressionNode p' \<Rightarrow> pred_verdict_ok esc p' | OtherExpressionNode t \<Rightarrow> True"
    and "case fc of
           CallFunction fn \<Rightarrow> (\<forall>sb. verdict_of (function2script esc sb fn) = verdict_function fn)
         | CallCastFunction fn \<Rightarrow> (\<forall>sb. verdict_of (castFunction2script esc sb fn) = verdict_cast fn)
         | CallCaseWhenElseFunction fn \<Rightarrow>
             (\<forall>sb. verdict_of (caseWhenFunction2script esc sb fn) = verdict_caseWhen fn)
         | _ \<Rightarrow> True"
    and "\<forall>sb. verdict_of (function2script esc sb f) = verdict_function f"
    and "\<forall>sb. verdict_of (castFunction2script esc sb cf) = verdict_cast cf"
    and "\<forall>sb. verdict_of (caseWhenFunction2script esc sb cw) = verdict_caseWhen cw"
    and "\<forall>sb. verdict_of (handleArg esc sb arg) = verdict_arg arg"
proof (induct a and m and n and p and en and fc and f and cf and cw and arg)
  case (IntervalExpressionAtom v d)
  show ?case
  proof
    fix sb
    show "verdict_of (exprAtom2script esc sb (IntervalExpressionAtom v d))
          = verdict_atom (IntervalExpressionAtom v d)"
    proof (cases v)
      case (AtomPredicateNode a)
      then have "verdict_of (exprAtom2script esc sb a) = verdict_atom a"
        using IntervalExpressionAtom by (simp add: pred_verdict_ok_def)
      then show ?thesis
        by (cases "exprAtom2script esc sb a") (auto simp: AtomPredicateNode split: if_splits)
    qed simp_all
  qed
next
  case (UnaryExpressionAtom operator inner)
  show ?case
  proof
    fix sb
    show "verdict_of (exprAtom2script esc sb (UnaryExpressionAtom operator inner))
          = verdict_atom (UnaryExpressionAtom operator inner)"
    proof (cases inner)
      case (NodeExpressionAtom it)
      then have "\<forall>sb. verdict_of (exprAtom2script esc sb it) = verdict_atom it"
        using UnaryExpressionAtom by simp
      then show ?thesis
        by (simp add: NodeExpressionAtom)
    next
      case (NodePredicate q)
      show ?thesis
      proof (cases q)
        case (BinaryComparisonPredicateNode l op r)
        have l: "\<forall>sb. verdict_of (handleCompareAtom esc sb l) = verdict_pred l Operand"
          and r: "\<forall>sb. verdict_of (handleCompareAtom esc sb r) = verdict_pred r Operand"
          using UnaryExpressionAtom
          by (simp_all add: NodePredicate BinaryComparisonPredicateNode pred_verdict_ok_def
                operand_verdict_ok_def)
        have "verdict_of
                (case handleCompareAtom esc ((((sb @ FuncUnary) @ [CHR ''('', SQ]) @ operator) @ [SQ, CHR '','', CHR '' '']) l of
                   Ok sb1 \<Rightarrow>
                     (case handleCompareAtom esc
                             (((sb1 @ '' '')
                               @ (case op of Ceq \<Rightarrow> ''=='' | Cne \<Rightarrow> ''!='' | Cother text \<Rightarrow> text))
                              @ '' '') r of
                        Ok sb2 \<Rightarrow> Ok (sb2 @ '')'')
                      | Err e \<Rightarrow> Err e | Panic m \<Rightarrow> Panic m)
                 | Err e \<Rightarrow> Err e | Panic m \<Rightarrow> Panic m)
              = first_stop [verdict_pred l Operand, verdict_pred r Operand]"
          by (intro verdict_seq) (simp_all add: l r)
        then show ?thesis
          by (simp add: NodePredicate BinaryComparisonPredicateNode)
      qed (simp_all add: NodePredicate)
    next
      case (NodeOther t)
      then show ?thesis by simp
    qed
  qed
next
  case (NestedExpressionAtom first)
  show ?case
  proof
    fix sb
    show "verdict_of (exprAtom2script esc sb (NestedExpressionAtom first))
          = verdict_atom (NestedExpressionAtom first)"
    proof (cases first)
      case (PredicateExpressionNode q)
      show ?thesis
      proof (cases q)
        case (AtomPredicateNode nxt)
        then have "\<forall>sb. verdict_of (exprAtom2script esc sb nxt) = verdict_atom nxt"
          using NestedExpressionAtom by (simp add: PredicateExpressionNode pred_verdict_ok_def)
        then show ?thesis
          by (simp add: PredicateExpressionNode AtomPredicateNode)
      qed (simp_all add: PredicateExpressionNode)
    qed simp
  qed
next
  case (MathExpressionAtom l op r)
  show ?case
  proof
    fix sb
    have "verdict_of
            (case exprAtom2script esc sb l of
               Ok sb1 \<Rightarrow> exprAtom2script esc (((sb1 @ '' '') @ op) @ '' '') r
             | Err e \<Rightarrow> Err e | Panic m \<Rightarrow> Panic m)
          = first_stop [verdict_atom l, verdict_atom r]"
      using MathExpressionAtom by (intro verdict_seq) simp_all
    then show "verdict_of (math2script esc sb (MathExpressionAtom l op r))
               = verdict_math (MathExpressionAtom l op r)"
      by simp
  qed
next
  case (Function name args)
  show ?case
  proof
    fix sb
    have "\<forall>x \<in> set args. \<forall>sb. verdict_of (handleArg esc sb x) = verdict_arg x"
      using Function by auto
    then have "verdict_of (function2script_args esc (writeFuncName sb name @ ''('') 0 args)
               = first_stop (map verdict_arg args)"
      by (rule args_verdict)
    then show "verdict_of (function2script esc sb (Function name args))
               = verdict_function (Function name args)"
      by simp
  qed
next
  case (CastFunction cast charset src)
  show ?case
  proof
    fix sb
    show "verdict_of (castFunction2script esc sb (CastFunction cast charset src))
          = verdict_cast (CastFunction cast charset src)"
    proof (cases "castHead esc sb cast charset")
      case (Ok s)
      then have ok: "cast_head_ok cast charset"
        using castHead_verdict [of esc sb cast charset] by (simp split: if_splits)
      show ?thesis
      proof (cases src)
        case (PredicateExpressionNode q)
        show ?thesis
        proof (cases q)
          case (AtomPredicateNode nxt)
          then have "\<forall>sb. verdict_of (exprAtom2script esc sb nxt) = verdict_atom nxt"
            using CastFunction by (simp add: PredicateExpressionNode pred_verdict_ok_def)
          then show ?thesis
            by (simp add: PredicateExpressionNode AtomPredicateNode Ok ok)
        qed (simp_all add: PredicateExpressionNode Ok ok)
      qed (simp add: Ok ok)
    next
      case (Err e)
      then show ?thesis
        using castHead_verdict [of esc sb cast charset] by (simp split: if_splits)
    next
      case (Panic m)
      then show ?thesis
        using castHead_verdict [of esc sb cast charset] by (simp split: if_splits)
    qed
  qed
next
  case (FunctionArgExpression v)
  show ?case
  proof
    fix sb
    show "verdict_of (handleArg esc sb (FunctionArgExpression v))
          = verdict_arg (FunctionArgExpression v)"
    proof (cases v)
      case (PredicateExpressionNode q)
      then have pq: "pred_verdict_ok esc q"
        using FunctionArgExpression by simp
      show ?thesis
      proof (cases q)
        case (AtomPredicateNode nxt)
        then show ?thesis
          using pq by (simp add: PredicateExpressionNode pred_verdict_ok_def)
      next
        case (BinaryComparisonPredicateNode l op r)
        then have l: "\<forall>sb. verdict_of (handleCompareAtom esc sb l) = verdict_pred l Operand"
          and r: "\<forall>sb. verdict_of (handleCompareAtom esc sb r) = verdict_pred r Operand"
          using pq by (simp_all add: pred_verdict_ok_def operand_verdict_ok_def)
        have "verdict_of
                (case handleCompareAtom esc sb l of
                   Ok sb1 \<Rightarrow>
                     handleCompareAtom esc
                       (((sb1 @ '' '')
                         @ (case op of Ceq \<Rightarrow> ''=='' | Cne \<Rightarrow> ''!='' | Cother text \<Rightarrow> text))
                        @ '' '') r
                 | Err e \<Rightarrow> Err e | Panic m \<Rightarrow> Panic m)
              = first_stop [verdict_pred l Operand, verdict_pred r Operand]"
          by (intro verdict_seq) (simp_all add: l r)
        then show ?thesis
          by (simp add: PredicateExpressionNode BinaryComparisonPredicateNode)
      next
        case (OtherPredicateNode t)
        then show ?thesis by (simp add: PredicateExpressionNode)
      qed
    qed simp
  qed
next
  case (CaseWhenElseFunction c bs els)
  show ?case
  proof
    fix sb
    let ?hv = "case_option [] (\<lambda>v. [verdict_expr v Operand]) c"
    let ?bv = "concat (map (\<lambda>b. [verdict_arg (fst b), verdict_arg (snd b)]) bs)"
    let ?ev = "case_option [] (\<lambda>e. [verdict_arg e]) els"
    have header: "verdict_of (caseWhen_header esc c) = first_stop ?hv"
    proof (cases c)
      case None
      then show ?thesis by simp
    next
      case (Some v)
      show ?thesis
      proof (cases v)
        case (PredicateExpressionNode q)
        then have "pred_verdict_ok esc q"
          using CaseWhenElseFunction(1) [of v] Some by simp
        then show ?thesis
          by (cases q) (simp_all add: Some PredicateExpressionNode pred_verdict_ok_def)
      qed (simp add: Some)
    qed
    have branches: "verdict_of (caseWhen_branches esc p cs 0 bs) = first_stop ?bv" for p cs
    proof (rule branches_verdict, intro ballI allI)
      fix b sb'
      assume b: "b \<in> set bs"
      obtain whn thn where wt: "b = (whn, thn)"
        by (cases b)
      show "verdict_of (handleArg esc sb' (fst b)) = verdict_arg (fst b)
          \<and> verdict_of (handleArg esc sb' (snd b)) = verdict_arg (snd b)"
        using CaseWhenElseFunction(2) [of b whn] CaseWhenElseFunction(3) [of b thn] b wt
        by simp
    qed
    have tail: "verdict_of
                 (case els of
                    Some e \<Rightarrow>
                      (case handleArg esc (sb1 @ '', '') e of
                         Ok sb2 \<Rightarrow> Ok (sb2 @ replicate (length bs) (CHR '')''))
                       | Err e \<Rightarrow> Err e | Panic m \<Rightarrow> Panic m)
                  | None \<Rightarrow> Ok (((sb1 @ '', '') @ ''null'') @ replicate (length bs) (CHR '')'')))
                = first_stop ?ev" for sb1
    proof (cases els)
      case None
      then show ?thesis by simp
    next
      case (Some e)
      then have "\<forall>sb. verdict_of (handleArg esc sb e) = verdict_arg e"
        using CaseWhenElseFunction(4) [of e] by simp
      then show ?thesis
        by (simp add: Some)
    qed
    have seq: "verdict_of r = first_stop xs \<Longrightarrow> (\<And>s. r = Ok s \<Longrightarrow> verdict_of (g s) = first_stop ys) \<Longrightarrow>
               verdict_of (case r of Ok s \<Rightarrow> g s | Err e \<Rightarrow> Err e | Panic m \<Rightarrow> Panic m)
               = first_stop (xs @ ys)" for r g xs ys
      by (cases r; induction xs) (auto split: if_splits)
    have "verdict_of
            (case caseWhen_header esc c of
               Ok caseScript \<Rightarrow>
                 (case caseWhen_branches esc sb caseScript 0 bs of
                    Ok sb1 \<Rightarrow>
                      (case els of
                         Some e \<Rightarrow>
                           (case handleArg esc (sb1 @ '', '') e of
                              Ok sb2 \<Rightarrow> Ok (sb2 @ replicate (length bs) (CHR '')''))
                            | Err e \<Rightarrow> Err e | Panic m \<Rightarrow> Panic m)
                       | None \<Rightarrow>
                           Ok (((sb1 @ '', '') @ ''null'') @ replicate (length bs) (CHR '')'')))
                  | Err e \<Rightarrow> Err e | Panic m \<Rightarrow> Panic m)
             | Err e \<Rightarrow> Err e | Panic m \<Rightarrow> Panic m)
          = first_stop (?hv @ ?bv @ ?ev)"
      by (intro seq header branches tail)
    moreover have "verdict_caseWhen (CaseWhenElseFunction c bs els) = first_stop (?hv @ ?bv @ ?ev)"
      by (cases c; cases els) (simp_all add: comp_def)
    ultimately show "verdict_of (caseWhenFunction2script esc sb (CaseWhenElseFunction c bs els))
               = verdict_caseWhen (CaseWhenElseFunction c bs els)"
      by simp
  qed
qed (auto simp: pred_verdict_ok_def operand_verdict_ok_def
      split: Node.splits PredicateNode.splits ExpressionNode.splits FunctionCall.splits)


lemma first_stop_column: "first_stop vs = StopsAtColumn \<Longrightarrow> StopsAtColumn \<in> set vs"
  by (induction vs) (auto split: if_splits)

lemma stops_at_column_has_column:
  shows "verdict_atom a = StopsAtColumn \<longrightarrow> has_column_atom a"
    and "verdict_math m = StopsAtColumn \<longrightarrow> has_column_math m"
    and "verdict_node n = StopsAtColumn \<longrightarrow> has_column_node n"
    and "\<forall>pl. verdict_pred p pl = StopsAtColumn \<longrightarrow> has_column_pred p"
    and "\<forall>pl. verdict_expr en pl = StopsAtColumn \<longrightarrow> has_column_expr en"
    and "verdict_call fc = StopsAtColumn \<longrightarrow> has_column_call fc"
    and "verdict_function f = StopsAtColumn \<longrightarrow> has_column_function f"
    and "verdict_cast cf = StopsAtColumn \<longrightarrow> has_column_cast cf"
    and "verdict_caseWhen cw = StopsAtColumn \<longrightarrow> has_column_caseWhen cw"
    and "verdict_arg arg = StopsAtColumn \<longrightarrow> has_column_arg arg"
proof (induct a and m and n and p and en and fc and f and cf and cw and arg)
  case (Function name args)
  show ?case
  proof
    assume "verdict_function (Function name args) = StopsAtColumn"
    then have "StopsAtColumn \<in> set (map verdict_arg args)"
      by (intro first_stop_column) simp
    then obtain x where "x \<in> set args" and "verdict_arg x = StopsAtColumn"
      by fastforce
    then show "has_column_function (Function name args)"
      using Function [of x] by (auto simp: image_iff)
  qed
next
  case (CaseWhenElseFunction c bs els)
  show ?case
  proof
    assume "verdict_caseWhen (CaseWhenElseFunction c bs els) = StopsAtColumn"
    then have "StopsAtColumn \<in> set
       (case_option [] (\<lambda>v. [v]) (map_option (\<lambda>f. f Operand) (map_option verdict_expr c))
        @ concat (map (\<lambda>b. [fst b, snd b]) (map (map_prod verdict_arg verdict_arg) bs))
        @ case_option [] (\<lambda>v. [v]) (map_option verdict_arg els))"
      by (intro first_stop_column) simp
    then consider v where "c = Some v" "verdict_expr v Operand = StopsAtColumn"
      | whn thn where "(whn, thn) \<in> set bs" "verdict_arg whn = StopsAtColumn \<or> verdict_arg thn = StopsAtColumn"
      | e where "els = Some e" "verdict_arg e = StopsAtColumn"
      by (auto split: option.splits)
    then show "has_column_caseWhen (CaseWhenElseFunction c bs els)"
    proof cases
      case 1
      then show ?thesis
        using CaseWhenElseFunction(1) [of v] by auto
    next
      case 2
      then have "has_column_arg whn \<or> has_column_arg thn"
        using CaseWhenElseFunction(2) [of "(whn, thn)" whn] CaseWhenElseFunction(3) [of "(whn, thn)" thn]
        by auto
      then show ?thesis
        using 2(1) by (force simp: image_iff)
    next
      case 3
      then show ?thesis
        using CaseWhenElseFunction(4) [of e] by auto
    qed
  qed
qed (auto dest!: first_stop_column split: if_splits)

text \<open>
  Claim C2 as stated fails on two trees that contain a column reference. A cast to BINARY
  over a column reference fails with the error of the cast, which is met first. An interval
  literal over a column reference fails with the column-reference error wrapped by
  \<^verbatim>\<open>errors.WithStack\<close>, a different error value. The predicate accepts neither.
\<close>

theorem column_reference_counterexample:
  "has_column_cast
     (CastFunction (Some \<lparr>Type = CastToBinary, Dimensions = (0, 0), Charset = None\<rparr>) None
        (PredicateExpressionNode (AtomPredicateNode ColumnNameExpressionAtom)))
   \<and> castFunction2script id []
     (CastFunction (Some \<lparr>Type = CastToBinary, Dimensions = (0, 0), Charset = None\<rparr>) None
        (PredicateExpressionNode (AtomPredicateNode ColumnNameExpressionAtom)))
     = Err (Errorf ''cast to binary is not supported yet'')
   \<and> \<not> IsEvalWithColumnErr (Errorf ''cast to binary is not supported yet'')
   \<and> has_column_atom (IntervalExpressionAtom (AtomPredicateNode ColumnNameExpressionAtom) 1000000000)
   \<and> exprAtom2script id []
        (IntervalExpressionAtom (AtomPredicateNode ColumnNameExpressionAtom) 1000000000)
     = Err (WithStack ErrCannotEvalWithColumnName)
   \<and> \<not> IsEvalWithColumnErr (WithStack ErrCannotEvalWithColumnName)"
  by (simp add: castHead_def IsEvalWithColumnErr_def)

text \<open>
  The interval literal wraps the error for every builder and every duration.
\<close>

lemma interval_wraps_column_error:
  "exprAtom2script esc sb
     (IntervalExpressionAtom (AtomPredicateNode ColumnNameExpressionAtom) d)
     = Err (WithStack ErrCannotEvalWithColumnName)
   \<and> \<not> IsEvalWithColumnErr (WithStack ErrCannotEvalWithColumnName)"
  by (simp add: IsEvalWithColumnErr_def)

text \<open>
  Claim C2, amended. For every tree in which the first node that fails, in the order of the
  traversal, is a column-reference atom or a column-typed function argument that does not lie
  under an interval literal, translation fails with the distinguished column-reference error:
  whatever follows the column reference in the tree, an unsupported construct included, is
  never looked at. The converse holds too: the translator returns this error for no other
  tree. A tree with this verdict contains a column reference. \<open>IsEvalWithColumnErr\<close> is
  true for exactly that error and false for every other error.
\<close>

theorem column_reference_propagates:
  "(exprAtom2script esc sb a = Err ErrCannotEvalWithColumnName \<longleftrightarrow> verdict_atom a = StopsAtColumn)
   \<and> (math2script esc sb m = Err ErrCannotEvalWithColumnName \<longleftrightarrow> verdict_math m = StopsAtColumn)
   \<and> (function2script esc sb f = Err ErrCannotEvalWithColumnName \<longleftrightarrow> verdict_function f = StopsAtColumn)
   \<and> (castFunction2script esc sb cf = Err ErrCannotEvalWithColumnName \<longleftrightarrow> verdict_cast cf = StopsAtColumn)
   \<and> (caseWhenFunction2script esc sb cw = Err ErrCannotEvalWithColumnName
        \<longleftrightarrow> verdict_caseWhen cw = StopsAtColumn)
   \<and> (handleArg esc sb arg = Err ErrCannotEvalWithColumnName \<longleftrightarrow> verdict_arg arg = StopsAtColumn)
   \<and> (verdict_atom a = StopsAtColumn \<longrightarrow> has_column_atom a)
   \<and> (verdict_math m = StopsAtColumn \<longrightarrow> has_column_math m)
   \<and> (verdict_function f = StopsAtColumn \<longrightarrow> has_column_function f)
   \<and> (verdict_cast cf = StopsAtColumn \<longrightarrow> has_column_cast cf)
   \<and> (verdict_caseWhen cw = StopsAtColumn \<longrightarrow> has_column_caseWhen cw)
   \<and> (verdict_arg arg = StopsAtColumn \<longrightarrow> has_column_arg arg)
   \<and> (IsEvalWithColumnErr er \<longleftrightarrow> er = ErrCannotEvalWithColumnName)
   \<and> \<not> IsEvalWithColumnErr (Errorf msg)
   \<and> \<not> IsEvalWithColumnErr (WithStack e)"
  using translator_verdict(1) [of esc a] translator_verdict(2) [of esc m]
    translator_verdict(7) [of esc f] translator_verdict(8) [of esc cf]
    translator_verdict(9) [of esc cw] translator_verdict(10) [of esc arg]
    stops_at_column_has_column(1) [of a] stops_at_column_has_column(2) [of m]
    stops_at_column_has_column(7) [of f] stops_at_column_has_column(8) [of cf]
    stops_at_column_has_column(9) [of cw] stops_at_column_has_column(10) [of arg]
  unfolding verdict_of_eq_column [symmetric]
  by (simp add: IsEvalWithColumnErr_def)

theorem column_reference_propagates_witness:
  "math2script id []
     (MathExpressionAtom ColumnNameExpressionAtom ''+'' (OtherExpressionAtom ''*ast.X''))
     = Err ErrCannotEvalWithColumnName
   \<and> has_column_math
     (MathExpressionAtom ColumnNameExpressionAtom ''+'' (OtherExpressionAtom ''*ast.X''))
   \<and> function2script id []
     (Function ''ABS'' [FunctionArgConstant ''1'', FunctionArgColumn])
     = Err ErrCannotEvalWithColumnName
   \<and> exprAtom2script id []
     (MathAtom (MathExpressionAtom (ConstantExpressionAtom ''1'') ''+'' ColumnNameExpressionAtom))
     = Err ErrCannotEvalWithColumnName
   \<and> IsEvalWithColumnErr ErrCannotEvalWithColumnName"
  using column_reference_propagates
    [where f = "Function ''ABS'' [FunctionArgConstant ''1'', FunctionArgColumn]"
       and a = "MathAtom (MathExpressionAtom (ConstantExpressionAtom ''1'') ''+'' ColumnNameExpressionAtom)"
       and m = "MathExpressionAtom ColumnNameExpressionAtom ''+'' (OtherExpressionAtom ''*ast.X'')"
       and esc = id and sb = "[]" and er = ErrCannotEvalWithColumnName]
  by simp

subsection \<open>Panics and silent successes\<close>

text \<open>
  Claim C6. Beside the two explicit \<^verbatim>\<open>panic("unreachable")\<close>, the unchecked type assertions
  panic: on a nested expression around a comparison, on a cast whose source is a comparison,
  on a function argument whose expression is not a predicate expression. A function
  argument of a type the switch does not name is skipped without an error.
\<close>

theorem unchecked_assertions_panic:
  "exprAtom2script esc sb
     (NestedExpressionAtom (PredicateExpressionNode
        (BinaryComparisonPredicateNode (AtomPredicateNode (ConstantExpressionAtom ''1'')) Ceq
           (AtomPredicateNode (ConstantExpressionAtom ''2'')))))
     = Panic ''interface conversion''
   \<and> castFunction2script esc sb
     (CastFunction None (Some ''utf8'')
        (PredicateExpressionNode
           (BinaryComparisonPredicateNode (AtomPredicateNode (ConstantExpressionAtom ''1'')) Ceq
              (AtomPredicateNode (ConstantExpressionAtom ''2'')))))
     = Panic ''interface conversion''
   \<and> handleArg esc sb (FunctionArgExpression (OtherExpressionNode ''*ast.LogicalExpressionNode''))
     = Panic ''interface conversion''
   \<and> handleArg esc sb FunctionArgOther = Ok sb"
  by (simp add: castHead_def)

section \<open>Properties of the memoized computation\<close>

lemma compute_done:
  "once_done sc \<Longrightarrow> compute esc sc = (sc, Returned (script sc, err sc))"
  by (simp add: compute_def Once_Do_def)

lemma compute_sets_done:
  "compute esc sc = (sc1, out) \<Longrightarrow> once_done sc1"
  by (auto simp: compute_def Once_Do_def compute_body_def
      split: if_splits result.splits prod.splits option.splits)

lemma compute_returns_fields:
  "compute esc sc = (sc1, Returned (s, eo)) \<Longrightarrow> script sc1 = s \<and> err sc1 = eo"
  by (auto simp: compute_def Once_Do_def split: if_splits prod.splits option.splits)

lemma filter_absent_take:
  assumes "map_of es k = None"
  shows "filter (\<lambda>e. fst e \<noteq> k) (take n es) = take n es"
proof -
  have "k \<notin> fst ` set es"
    using assms by (simp add: map_of_eq_None_iff)
  then have "\<forall>e \<in> set (take n es). fst e \<noteq> k"
    using set_take_subset [of n es] by auto
  then show ?thesis
    by simp
qed

lemma filter_front:
  "filter (\<lambda>e. fst e \<noteq> k) ((k, r) # filter (\<lambda>e. fst e \<noteq> k) es) = filter (\<lambda>e. fst e \<noteq> k) es"
  by simp

lemma compute_at_done:
  assumes "heap c r = Some sc" and "once_done sc"
  shows "compute_at esc c r = (c, Returned (script sc, err sc))"
proof -
  have "(heap c)(r \<mapsto> sc) = heap c"
    using assms(1) by (simp add: fun_upd_idem)
  then show ?thesis
    using assms by (simp add: compute_at_def compute_done)
qed

lemma compute_at_result:
  assumes "compute_at esc c r = (c1, Returned (s, eo))"
  shows "\<exists>sc1. heap c1 r = Some sc1 \<and> once_done sc1 \<and> script sc1 = s \<and> err sc1 = eo
               \<and> lru c1 = lru c \<and> fresh c1 = fresh c"
proof (cases "heap c r")
  case None
  then show ?thesis
    using assms by (simp add: compute_at_def)
next
  case (Some sc)
  obtain sc1 out where c: "compute esc sc = (sc1, out)"
    by (cases "compute esc sc")
  then have "out = Returned (s, eo)" and c1: "c1 = c\<lparr>heap := (heap c)(r \<mapsto> sc1)\<rparr>"
    using assms Some by (simp_all add: compute_at_def)
  then show ?thesis
    using c compute_sets_done [of esc sc sc1 out] compute_returns_fields [of esc sc sc1 s eo]
    by simp
qed

lemma build_failed_fixpoint:
  assumes "build esc c addr node = (c1, Returned (s, eo))"
    and "typeName_Source node' = typeName_Source node"
  shows "build esc' c1 addr node' = (c1, Returned (s, eo))"
proof -
  let ?k = "(typeName_Source node, addr)"
  show ?thesis
  proof (cases "map_of (lru c) ?k")
    case (Some r)
    let ?es = "(?k, r) # filter (\<lambda>e. fst e \<noteq> ?k) (lru c)"
    have b: "compute_at esc (c\<lparr>lru := ?es\<rparr>) r = (c1, Returned (s, eo))"
      using assms(1) Some by (simp add: build_def lru_Get_def)
    from compute_at_result [OF b]
    obtain sc1 where h: "heap c1 r = Some sc1" and d: "once_done sc1"
      and f: "script sc1 = s" "err sc1 = eo" and l: "lru c1 = ?es"
      by auto
    have "lru_Get ?k (lru c1) = (lru c1, Some r)"
      by (simp add: l lru_Get_def)
    then show ?thesis
      using compute_at_done [OF h d, of esc'] f assms(2) by (simp add: build_def)
  next
    case None
    let ?es = "take cache_size ((?k, fresh c) # lru c)"
    let ?c = "c\<lparr>lru := ?es, heap := (heap c)(fresh c \<mapsto> newScriptComputer (Some node)),
                 fresh := Suc (fresh c)\<rparr>"
    have b: "compute_at esc ?c (fresh c) = (c1, Returned (s, eo))"
      using assms(1) None by (simp add: build_def lru_Get_def lru_PeekOrAdd_def)
    from compute_at_result [OF b]
    obtain sc1 where h: "heap c1 (fresh c) = Some sc1" and d: "once_done sc1"
      and f: "script sc1 = s" "err sc1 = eo" and l: "lru c1 = ?es"
      by auto
    have es: "?es = (?k, fresh c) # take (cache_size - 1) (lru c)"
      by (simp add: cache_size_def)
    have "lru_Get ?k (lru c1) = (lru c1, Some (fresh c))"
      using filter_absent_take [OF None, of "cache_size - 1"]
      by (simp add: l es lru_Get_def)
    then show ?thesis
      using compute_at_done [OF h d, of esc'] f assms(2) by (simp add: build_def)
  qed
qed

lemma eval_node_failed:
  "build esc c addr node = (c1, Returned (s, Some e)) \<Longrightarrow>
   eval_node esc vm c addr node args = (c1, Returned (None, Some e))"
  by (simp add: eval_node_def)

text \<open>
  Claim C5. When translation fails, the computation stores the error; every later
  \<open>compute\<close> on it returns the same error and leaves it unchanged, and \<open>Once_Do\<close> runs no
  function on it, whatever the function is. When \<open>build\<close> returns a translation error,
  each front-end returns \<^verbatim>\<open>nil\<close> and that error, for every script engine; a later
  \<open>build\<close> or front-end call for the same key returns the same error and leaves the cache
  and every computation unchanged.
\<close>

theorem failed_translation_is_replayed:
  "(translate esc src = Err e \<longrightarrow>
      compute esc (newScriptComputer src)
      = (\<lparr>once_done = True, source = None, script = [], err = Some e\<rparr>, Returned ([], Some e)))
   \<and> (compute esc sc = (sc1, Returned (s, Some e)) \<longrightarrow>
      compute esc' sc1 = (sc1, Returned (s, Some e)) \<and> Once_Do body sc1 = (sc1, None))
   \<and> (build esc c addr (SrcFunction fn) = (c1, Returned (s, Some e)) \<longrightarrow>
      EvalFunction esc vm c addr fn args = (c1, Returned (None, Some e))
      \<and> build esc' c1 addr (SrcFunction fn') = (c1, Returned (s, Some e))
      \<and> EvalFunction esc' vm' c1 addr fn' args' = (c1, Returned (None, Some e)))
   \<and> (build esc c addr (SrcCastFunction cf) = (c1, Returned (s, Some e)) \<longrightarrow>
      EvalCastFunction esc vm c addr cf args = (c1, Returned (None, Some e))
      \<and> build esc' c1 addr (SrcCastFunction cf') = (c1, Returned (s, Some e))
      \<and> EvalCastFunction esc' vm' c1 addr cf' args' = (c1, Returned (None, Some e)))
   \<and> (build esc c addr (SrcCaseWhenElseFunction cw) = (c1, Returned (s, Some e)) \<longrightarrow>
      EvalCaseWhenFunction esc vm c addr cw args = (c1, Returned (None, Some e))
      \<and> build esc' c1 addr (SrcCaseWhenElseFunction cw') = (c1, Returned (s, Some e))
      \<and> EvalCaseWhenFunction esc' vm' c1 addr cw' args' = (c1, Returned (None, Some e)))
   \<and> (build esc c addr (SrcMathExpressionAtom m) = (c1, Returned (s, Some e)) \<longrightarrow>
      Eval esc vm c addr m args = (c1, Returned (None, Some e))
      \<and> build esc' c1 addr (SrcMathExpressionAtom m') = (c1, Returned (s, Some e))
      \<and> Eval esc' vm' c1 addr m' args' = (c1, Returned (None, Some e)))"
proof (intro conjI impI)
  assume "translate esc src = Err e"
  then show "compute esc (newScriptComputer src)
      = (\<lparr>once_done = True, source = None, script = [], err = Some e\<rparr>, Returned ([], Some e))"
    by (simp add: compute_def Once_Do_def compute_body_def newScriptComputer_def)
next
  assume a: "compute esc sc = (sc1, Returned (s, Some e))"
  have d: "once_done sc1"
    using a by (rule compute_sets_done)
  show "compute esc' sc1 = (sc1, Returned (s, Some e))"
    using compute_done [OF d, of esc'] compute_returns_fields [OF a] by simp
  show "Once_Do body sc1 = (sc1, None)"
    using d by (simp add: Once_Do_def)
next
  assume a: "build esc c addr (SrcFunction fn) = (c1, Returned (s, Some e))"
  have b: "build esc' c1 addr (SrcFunction fn') = (c1, Returned (s, Some e))"
    using a by (rule build_failed_fixpoint) simp
  show "EvalFunction esc vm c addr fn args = (c1, Returned (None, Some e))"
    unfolding EvalFunction_def using a by (rule eval_node_failed)
  show "build esc' c1 addr (SrcFunction fn') = (c1, Returned (s, Some e))"
    by (rule b)
  show "EvalFunction esc' vm' c1 addr fn' args' = (c1, Returned (None, Some e))"
    unfolding EvalFunction_def using b by (rule eval_node_failed)
next
  assume a: "build esc c addr (SrcCastFunction cf) = (c1, Returned (s, Some e))"
  have b: "build esc' c1 addr (SrcCastFunction cf') = (c1, Returned (s, Some e))"
    using a by (rule build_failed_fixpoint) simp
  show "EvalCastFunction esc vm c addr cf args = (c1, Returned (None, Some e))"
    unfolding EvalCastFunction_def using a by (rule eval_node_failed)
  show "build esc' c1 addr (SrcCastFunction cf') = (c1, Returned (s, Some e))"
    by (rule b)
  show "EvalCastFunction esc' vm' c1 addr cf' args' = (c1, Returned (None, Some e))"
    unfolding EvalCastFunction_def using b by (rule eval_node_failed)
next
  assume a: "build esc c addr (SrcCaseWhenElseFunction cw) = (c1, Returned (s, Some e))"
  have b: "build esc' c1 addr (SrcCaseWhenElseFunction cw') = (c1, Returned (s, Some e))"
    using a by (rule build_failed_fixpoint) simp
  show "EvalCaseWhenFunction esc vm c addr cw args = (c1, Returned (None, Some e))"
    unfolding EvalCaseWhenFunction_def using a by (rule eval_node_failed)
  show "build esc' c1 addr (SrcCaseWhenElseFunction cw') = (c1, Returned (s, Some e))"
    by (rule b)
  show "EvalCaseWhenFunction esc' vm' c1 addr cw' args' = (c1, Returned (None, Some e))"
    unfolding EvalCaseWhenFunction_def using b by (rule eval_node_failed)
next
  assume a: "build esc c addr (SrcMathExpressionAtom m) = (c1, Returned (s, Some e))"
  have b: "build esc' c1 addr (SrcMathExpressionAtom m') = (c1, Returned (s, Some e))"
    using a by (rule build_failed_fixpoint) simp
  show "Eval esc vm c addr m args = (c1, Returned (None, Some e))"
    unfolding Eval_def using a by (rule eval_node_failed)
  show "build esc' c1 addr (SrcMathExpressionAtom m') = (c1, Returned (s, Some e))"
    by (rule b)
  show "Eval esc' vm' c1 addr m' args' = (c1, Returned (None, Some e))"
    unfolding Eval_def using b by (rule eval_node_failed)
qed

theorem failed_translation_is_replayed_witness:
  "build id newCalculator 7 (SrcFunction (Function ''ABS'' [FunctionArgColumn]))
     = (\<lparr>lru = [((''*ast.Function'', 7), 0)],
         heap = [0 \<mapsto> \<lparr>once_done = True, source = None, script = [],
                        err = Some ErrCannotEvalWithColumnName\<rparr>],
         fresh = 1\<rparr>,
        Returned ([], Some ErrCannotEvalWithColumnName))
   \<and> EvalFunction id silent_engine newCalculator 7 (Function ''ABS'' [FunctionArgColumn]) []
     = (\<lparr>lru = [((''*ast.Function'', 7), 0)],
         heap = [0 \<mapsto> \<lparr>once_done = True, source = None, script = [],
                        err = Some ErrCannotEvalWithColumnName\<rparr>],
         fresh = 1\<rparr>,
        Returned (None, Some ErrCannotEvalWithColumnName))
   \<and> EvalFunction id silent_engine
       \<lparr>lru = [((''*ast.Function'', 7), 0)],
        heap = [0 \<mapsto> \<lparr>once_done = True, source = None, script = [],
                       err = Some ErrCannotEvalWithColumnName\<rparr>],
        fresh = 1\<rparr>
       7 (Function ''ABS'' [FunctionArgColumn]) []
     = (\<lparr>lru = [((''*ast.Function'', 7), 0)],
         heap = [0 \<mapsto> \<lparr>once_done = True, source = None, script = [],
                        err = Some ErrCannotEvalWithColumnName\<rparr>],
         fresh = 1\<rparr>,
        Returned (None, Some ErrCannotEvalWithColumnName))"
proof -
  let ?fn = "Function ''ABS'' [FunctionArgColumn]"
  let ?c1 = "\<lparr>lru = [((''*ast.Function'', 7), 0)],
         heap = [0 \<mapsto> \<lparr>once_done = True, source = None, script = [],
                        err = Some ErrCannotEvalWithColumnName\<rparr>],
         fresh = 1\<rparr>"
  have b: "build id newCalculator 7 (SrcFunction ?fn)
           = (?c1, Returned ([], Some ErrCannotEvalWithColumnName))"
    by (simp add: build_def newCalculator_def lru_Get_def lru_PeekOrAdd_def cache_size_def
        compute_at_def compute_def Once_Do_def compute_body_def translate_def
        newScriptComputer_def writeFuncName_def)
  show ?thesis
    using b failed_translation_is_replayed
      [where esc = id and c = newCalculator and addr = 7 and fn = ?fn and ?c1.0 = ?c1
         and s = "[]" and e = ErrCannotEvalWithColumnName and vm = silent_engine
         and args = "[]" and esc' = id and vm' = silent_engine and fn' = ?fn and args' = "[]"]
    by simp
qed


end
